theory Spec2Isabelle
  imports Main "HOL-Library.Sublist"
begin

section \<open>Python text\<close>

text \<open>
  A Python \<open>str\<close> is a sequence of Unicode code points. The sources use characters
  beyond Latin-1 (the bullet U+2022, the rupee sign U+20B9) and \<open>str.strip\<close>, which
  knows Unicode white space, so a string is modelled as the list of its code points.
  \<open>py\<close> reads an ASCII literal.
\<close>

type_synonym pystr = "nat list"

definition py :: "string \<Rightarrow> pystr" where
  "py s = map of_char s"

text \<open>Truthiness of a \<open>str\<close> and of an optional \<open>str\<close> (\<open>None\<close> and \<open>""\<close> are falsy).\<close>

definition truthy :: "pystr option \<Rightarrow> bool" where
  "truthy v = (case v of None \<Rightarrow> False | Some s \<Rightarrow> s \<noteq> [])"

text \<open>\<open>str(n)\<close> for an \<open>int\<close>: decimal digits, a minus sign for negatives.\<close>

fun digits :: "nat \<Rightarrow> pystr" where
  "digits n = (if n < 10 then [48 + n] else digits (n div 10) @ [48 + n mod 10])"

declare digits.simps [simp del]

definition str_int :: "int \<Rightarrow> pystr" where
  "str_int i = (if i < 0 then 45 # digits (nat (- i)) else digits (nat i))"

text \<open>\<open>sep.join(xs)\<close>.\<close>

fun join :: "pystr \<Rightarrow> pystr list \<Rightarrow> pystr" where
  "join sep [] = []"
| "join sep [x] = x"
| "join sep (x # y # ys) = x @ sep @ join sep (y # ys)"

text \<open>
  \<open>str.isspace\<close> on one character: the code points CPython's
  \<open>_PyUnicode_IsWhitespace\<close> accepts.
\<close>

definition py_isspace :: "nat \<Rightarrow> bool" where
  "py_isspace c \<longleftrightarrow>
     (9 \<le> c \<and> c \<le> 13) \<or> (28 \<le> c \<and> c \<le> 32) \<or> c = 133 \<or> c = 160 \<or> c = 5760 \<or>
     (8192 \<le> c \<and> c \<le> 8202) \<or> c = 8232 \<or> c = 8233 \<or> c = 8239 \<or> c = 8287 \<or> c = 12288"

definition strip :: "pystr \<Rightarrow> pystr" where
  "strip s = rev (dropWhile py_isspace (rev (dropWhile py_isspace s)))"

text \<open>\<open>s.split(sep)\<close> for a one-character separator: never the empty list.\<close>

fun split :: "nat \<Rightarrow> pystr \<Rightarrow> pystr list" where
  "split sep [] = [[]]"
| "split sep (c # cs) =
     (if c = sep then [] # split sep cs
      else (case split sep cs of
              [] \<Rightarrow> [[c]]
            | l # ls \<Rightarrow> (c # l) # ls))"

text \<open>
  \<open>s.replace(old, "")\<close>: every non-overlapping occurrence of \<open>old\<close>, found from the
  left, is deleted in one pass. With \<open>old\<close> empty and the replacement empty the string is
  returned as it is.
\<close>

function replace_all :: "pystr \<Rightarrow> pystr \<Rightarrow> pystr" where
  "replace_all old s =
     (if old = [] then s
      else (case s of
              [] \<Rightarrow> []
            | c # cs \<Rightarrow>
                if prefix old s then replace_all old (drop (length old) s)
                else c # replace_all old cs))"
  by pat_completeness auto
termination
  by (relation "measure (\<lambda>(old, s). length s)") auto

declare replace_all.simps [simp del]

section \<open>The prompt builder\<close>

text \<open>
  The form fields \<open>construct_query\<close> closes over. \<open>origin\<close> is \<open>origin_airport\<close>
  in main.py and \<open>origin_city\<close> in globe.py. The dates are \<open>datetime.date\<close> objects
  of an abstract type; \<open>strftime('%b %d, %Y')\<close> is the library's and is a parameter.
\<close>

record 'd form =
  origin :: pystr
  destination :: pystr
  start_date :: 'd
  end_date :: 'd
  travelers :: int
  budget_option :: pystr
  interests :: "pystr list"
  accommodation :: pystr
  additional_notes :: pystr

text \<open>
  The budget table. globe.py writes the rupee sign U+20B9; main.py holds the three code
  points U+201A U+00C7 U+03C0 in its place.
\<close>

definition rupee_globe :: pystr where
  "rupee_globe = [8377]"

definition rupee_main :: pystr where
  "rupee_main = [8218, 199, 960]"

definition budget_map :: "pystr \<Rightarrow> (pystr \<times> pystr) list" where
  "budget_map r =
     [(py ''Budget - Up to '' @ r @ py ''50,000'', py ''under '' @ r @ py ''50,000''),
      (py ''Mid-range - '' @ r @ py ''50,000 to '' @ r @ py ''1,50,000'',
         r @ py ''50,000-1,50,000''),
      (py ''Luxury - Above '' @ r @ py ''1,50,000'', py ''over '' @ r @ py ''1,50,000'')]"

definition budget_str :: "pystr \<Rightarrow> pystr \<Rightarrow> pystr" where
  "budget_str r option =
     (case map_of (budget_map r) option of
        Some v \<Rightarrow> v
      | None \<Rightarrow> py ''flexible'')"

text \<open>
  The body both files share; they differ in the rupee sign of the budget table and in
  the closing sentence.
\<close>

definition build_query :: "('d \<Rightarrow> pystr) \<Rightarrow> pystr \<Rightarrow> pystr \<Rightarrow> 'd form \<Rightarrow> pystr" where
  "build_query strftime r closing f =
     (if destination f = [] then []
      else
        let travel_dates = strftime (start_date f) @ py '' to '' @ strftime (end_date f);
            query0 = py ''Plan a trip to '' @ destination f @ py '' for '' @
                     str_int (travelers f) @ py '' travelers'';
            query1 = (if origin f \<noteq> [] then query0 @ py '' departing from '' @ origin f
                      else query0);
            query2 = query1 @ py '' from '' @ travel_dates @ py '' with a '' @
                     budget_str r (budget_option f) @ py '' budget in INR'';
            query3 = (if interests f \<noteq> []
                      then query2 @ py ''. We're interested in: '' @
                           join (py '', '') (interests f)
                      else query2);
            query4 = (if accommodation f \<noteq> py ''Any''
                      then query3 @ py ''. We prefer staying in '' @ accommodation f
                      else query3);
            query5 = (if additional_notes f \<noteq> []
                      then query4 @ py ''. Additional notes: '' @ additional_notes f
                      else query4)
        in query5 @ closing)"

definition construct_query_main :: "('d \<Rightarrow> pystr) \<Rightarrow> 'd form \<Rightarrow> pystr" where
  "construct_query_main strftime f =
     build_query strftime rupee_main
       (py ''. Please include flight options, accommodations, daily activities, and all costs in INR.'')
       f"

definition construct_query_globe :: "('d \<Rightarrow> pystr) \<Rightarrow> 'd form \<Rightarrow> pystr" where
  "construct_query_globe strftime f =
     build_query strftime rupee_globe
       (py ''. Please include flight options, accommodations, daily activities, and all costs in INR. Use Exa to search for flight information, prices, and schedules.'')
       f"

section \<open>The travel-plan handler and the history display (main.py)\<close>

text \<open>
  \<open>st.session_state.messages\<close> is a list of dictionaries with the keys \<open>role\<close> and
  \<open>content\<close>. The session also records what \<open>st.error\<close> and \<open>st.warning\<close> were
  called with.
\<close>

record message =
  role :: pystr
  content :: pystr

record session =
  messages :: "message list"
  st_errors :: "pystr list"
  st_warnings :: "pystr list"

definition initial_session :: session where
  "initial_session = \<lparr>messages = [], st_errors = [], st_warnings = []\<rparr>"

text \<open>
  \<open>globe_hopper_agent.run(prompt)\<close> is the agent library's: it raises, or returns an
  object that has a \<open>content\<close> attribute (given here as its \<open>str\<close>) or has none.
\<close>

datatype agent_outcome = Agent_raised pystr | Agent_response "pystr option"

text \<open>
  The body of \<open>if generate_plan:\<close>. The two dates are \<open>datetime.date\<close> objects,
  which are always true, so the validation is the test of \<open>destination\<close>.
\<close>

definition on_generate_plan ::
  "('d \<Rightarrow> pystr) \<Rightarrow> (pystr \<Rightarrow> agent_outcome) \<Rightarrow> 'd form \<Rightarrow> session \<Rightarrow> session" where
  "on_generate_plan strftime agent_run f s =
     (let user_prompt = construct_query_main strftime f in
      if destination f \<noteq> [] then
        let s1 = s\<lparr>messages := messages s @ [\<lparr>role = py ''user'', content = user_prompt\<rparr>]\<rparr> in
        (case agent_run user_prompt of
           Agent_response c \<Rightarrow>
             let response_content =
                   (case c of Some t \<Rightarrow> t | None \<Rightarrow> py ''No response generated.'')
             in s1\<lparr>messages := messages s1 @
                    [\<lparr>role = py ''assistant'', content = response_content\<rparr>]\<rparr>
         | Agent_raised e \<Rightarrow>
             s1\<lparr>st_errors := st_errors s1 @ [py ''Error fetching response: '' @ e]\<rparr>)
      else
        s\<lparr>st_warnings := st_warnings s @
             [py ''Please fill in at least the destination and travel dates.'']\<rparr>)"

text \<open>A session is a sequence of clicks, each with the form as filled in and the agent's behaviour then.\<close>

fun run_session ::
  "('d \<Rightarrow> pystr) \<Rightarrow> ((pystr \<Rightarrow> agent_outcome) \<times> 'd form) list \<Rightarrow> session \<Rightarrow> session" where
  "run_session strftime [] s = s"
| "run_session strftime ((agent_run, f) # clicks) s =
     run_session strftime clicks (on_generate_plan strftime agent_run f s)"

text \<open>
  The display loop \<open>for i in range(0, len(messages), 2): if i+1 < len(messages): ...\<close>:
  the (query, response, expanded) triples it renders.
\<close>

definition display_history :: "message list \<Rightarrow> (pystr \<times> pystr \<times> bool) list" where
  "display_history ms =
     [(content (ms ! i), content (ms ! (i + 1)), int i = int (length ms) - 2).
        i \<leftarrow> [0..<length ms], even i, i + 1 < length ms]"

section \<open>The flight-search tools (main.py)\<close>

text \<open>
  The Amadeus SDK is a collaborator. A call of one of its endpoints returns
  \<open>response.data\<close>, raises \<open>ResponseError\<close> (given with its \<open>str\<close>), or raises
  something else. The client object is what the class reaches through it: the two
  endpoints \<open>reference_data.locations.get\<close> and \<open>shopping.flight_offers_search.get\<close>,
  and the attribute \<open>reference_data.locations.by_id\<close>, which is \<open>None\<close> when the object
  has no such attribute (the SDK's \<open>Locations\<close> class defines none; its lookup by id is
  \<open>reference_data.location(id)\<close>).
\<close>

datatype 'j api_outcome = Api_data 'j | Api_ResponseError pystr | Api_other_error pystr

record flight_params =
  originLocationCode :: pystr
  destinationLocationCode :: pystr
  departureDate :: pystr
  returnDate :: "pystr option"
  adults :: int

record 'j amadeus_client =
  locations_get :: "pystr \<Rightarrow> 'j api_outcome"
  flight_offers_search_get :: "flight_params \<Rightarrow> 'j api_outcome"
  locations_by_id :: "(pystr \<Rightarrow> 'j api_outcome) option"

record 'j amadeus_tools =
  client :: "'j amadeus_client option"
  error_message :: "pystr option"

text \<open>
  \<open>__init__\<close>. \<open>new_client\<close> is the SDK's constructor \<open>Client(client_id=..,
  client_secret=..)\<close>: \<open>Inl\<close> is the \<open>ValueError\<close> it may raise.
\<close>

definition amadeus_init ::
  "(pystr \<Rightarrow> pystr \<Rightarrow> pystr + 'j amadeus_client) \<Rightarrow> pystr option \<Rightarrow> pystr option \<Rightarrow>
     'j amadeus_tools" where
  "amadeus_init new_client client_id client_secret =
     (case (client_id, client_secret) of
        (Some cid, Some csec) \<Rightarrow>
          if cid = [] \<or> csec = [] then
            \<lparr>client = None,
             error_message = Some (py ''Amadeus client credentials are missing'')\<rparr>
          else
            (case new_client cid csec of
               Inr c \<Rightarrow> \<lparr>client = Some c, error_message = None\<rparr>
             | Inl e \<Rightarrow>
                 \<lparr>client = None,
                  error_message = Some (py ''Error initializing Amadeus client: '' @ e)\<rparr>)
      | _ \<Rightarrow>
          \<lparr>client = None,
           error_message = Some (py ''Amadeus client credentials are missing'')\<rparr>)"

text \<open>
  What a tool method gives its caller: it returns response data or the dictionary
  \<open>{"error": ...}\<close>, or an exception leaves it: the \<open>AttributeError\<close> of a missing
  attribute, or whatever an endpoint raised that is no \<open>ResponseError\<close>.
\<close>

datatype 'j tool_value = Data 'j | Error_dict "pystr option"

datatype raised = AttributeError pystr | Uncaught pystr

datatype 'a outcome = Return 'a | Raise raised

text \<open>\<open>try: ... return response.data  except ResponseError as error: return {"error": str(error)}\<close>\<close>

definition try_api :: "'j api_outcome \<Rightarrow> 'j tool_value outcome" where
  "try_api r =
     (case r of
        Api_data d \<Rightarrow> Return (Data d)
      | Api_ResponseError e \<Rightarrow> Return (Error_dict (Some e))
      | Api_other_error e \<Rightarrow> Raise (Uncaught e))"

definition search_airports :: "'j amadeus_tools \<Rightarrow> pystr \<Rightarrow> 'j tool_value outcome" where
  "search_airports self keyword =
     (case client self of
        None \<Rightarrow> Return (Error_dict (error_message self))
      | Some c \<Rightarrow> try_api (locations_get c keyword))"

definition search_flights ::
  "'j amadeus_tools \<Rightarrow> pystr \<Rightarrow> pystr \<Rightarrow> pystr \<Rightarrow> pystr option \<Rightarrow> int \<Rightarrow> 'j tool_value outcome" where
  "search_flights self orig dest departure_date return_date n_adults =
     (case client self of
        None \<Rightarrow> Return (Error_dict (error_message self))
      | Some c \<Rightarrow>
          if truthy return_date then
            try_api (flight_offers_search_get c
              \<lparr>originLocationCode = orig, destinationLocationCode = dest,
               departureDate = departure_date, returnDate = return_date,
               adults = n_adults\<rparr>)
          else
            try_api (flight_offers_search_get c
              \<lparr>originLocationCode = orig, destinationLocationCode = dest,
               departureDate = departure_date, returnDate = None,
               adults = n_adults\<rparr>))"

definition get_airport_info :: "'j amadeus_tools \<Rightarrow> pystr \<Rightarrow> 'j tool_value outcome" where
  "get_airport_info self airport_code =
     (case client self of
        None \<Rightarrow> Return (Error_dict (error_message self))
      | Some c \<Rightarrow>
          (case locations_by_id c of
             None \<Rightarrow>
               Raise (AttributeError
                 ([39] @ py ''Locations'' @ [39] @ py '' object has no attribute '' @
                  [39] @ py ''by_id'' @ [39]))
           | Some by_id_get \<Rightarrow> try_api (by_id_get airport_code)))"

section \<open>The two regular expressions of test.py\<close>

text \<open>
  \<open>lazy_then lit k s\<close> is the backtracking matcher for \<open>(.*?)\<close> followed by the literal
  \<open>lit\<close> and then by the rest of the pattern \<open>k\<close>: the group grows one character at a
  time, never over a newline (code point 10, which \<open>.\<close> does not match), and the first
  length at which the rest of the pattern matches wins. It gives the group and what \<open>k\<close> gave.
\<close>

fun lazy_then :: "pystr \<Rightarrow> (pystr \<Rightarrow> 'a option) \<Rightarrow> pystr \<Rightarrow> (pystr \<times> 'a) option" where
  "lazy_then lit k [] =
     (if lit = [] then map_option (Pair []) (k []) else None)"
| "lazy_then lit k (c # cs) =
     (case (if prefix lit (c # cs) then k (drop (length lit) (c # cs)) else None) of
        Some r \<Rightarrow> Some ([], r)
      | None \<Rightarrow>
          if c = 10 then None
          else map_option (\<lambda>(g, r). (c # g, r)) (lazy_then lit k cs))"

text \<open>
  The pattern \<open>!\[(.*?)\]\((.*?)\)\<close> matched at the start of \<open>s\<close>: the alt text, the
  URL and what follows the match.
\<close>

definition match_image_at :: "pystr \<Rightarrow> (pystr \<times> pystr \<times> pystr) option" where
  "match_image_at s =
     (if prefix (py ''!['') s
      then lazy_then (py '']('') (lazy_then (py '')'') Some) (drop 2 s)
      else None)"

text \<open>\<open>match.group(0)\<close> of a match with these two groups.\<close>

definition group0 :: "pystr \<times> pystr \<Rightarrow> pystr" where
  "group0 m = py ''!['' @ fst m @ py '']('' @ snd m @ py '')''"

text \<open>
  \<open>re.finditer\<close> with the image pattern: the non-overlapping matches from left to
  right, each as (alt, url). After a match the scan goes on behind it; where nothing
  matches it moves one character on.
\<close>

function image_matches :: "pystr \<Rightarrow> (pystr \<times> pystr) list" where
  "image_matches [] = []"
| "image_matches (c # cs) =
     (case match_image_at (c # cs) of
        Some (alt, url, rest) \<Rightarrow> (alt, url) # image_matches rest
      | None \<Rightarrow> image_matches cs)"
  by pat_completeness auto
termination
proof -
  have len: "\<exists>t. k t = Some r \<and> length t + length g + length lit = length s"
    if "lazy_then lit k s = Some (g, r)" for lit k s g r
    using that
  proof (induction s arbitrary: g)
    case Nil
    then show ?case by (auto split: if_splits)
  next
    case (Cons c cs)
    show ?case
    proof (cases "prefix lit (c # cs) \<and> k (drop (length lit) (c # cs)) \<noteq> None")
      case True
      with Cons.prems have "g = []" and "k (drop (length lit) (c # cs)) = Some r"
        by auto
      moreover from True obtain zs where "c # cs = lit @ zs"
        by (auto simp: prefix_def)
      then have "length (drop (length lit) (c # cs)) + length lit = length (c # cs)"
        by simp
      ultimately show ?thesis
        by (intro exI[of _ "drop (length lit) (c # cs)"]) simp
    next
      case False
      with Cons.prems obtain g' where "g = c # g'" and "lazy_then lit k cs = Some (g', r)"
        by (auto split: if_splits option.splits)
      with Cons.IH[of g'] show ?thesis by auto
    qed
  qed
  have shorter: "length rest < length s"
    if "match_image_at s = Some (alt, url, rest)" for s alt url rest
  proof -
    from that
    have "lazy_then (py '']('') (lazy_then (py '')'') Some) (drop 2 s) = Some (alt, (url, rest))"
      by (auto simp: match_image_at_def split: if_splits)
    from len[OF this] obtain t where
      t: "lazy_then (py '')'') Some t = Some (url, rest)" and
      l: "length t + length alt + length (py '']('') = length (drop 2 s)"
      by blast
    from len[OF t] have "length rest + length url + length (py '')'') = length t"
      by auto
    with l show ?thesis by (simp add: py_def)
  qed
  show ?thesis
    by (relation "measure length") (auto dest: shorter)
qed

text \<open>
  \<open>re.search(r'Plan a trip to (.*?) for', s)\<close>: group 1 of the leftmost match.
\<close>

fun search_destination :: "pystr \<Rightarrow> pystr option" where
  "search_destination [] = None"
| "search_destination (c # cs) =
     (case (if prefix (py ''Plan a trip to '') (c # cs)
            then lazy_then (py '' for'') Some (drop 15 (c # cs))
            else None) of
        Some (g, rest) \<Rightarrow> Some g
      | None \<Rightarrow> search_destination cs)"

section \<open>The Image Extractor (test.py)\<close>

text \<open>
  What the function does to the world: the queries it sent to the image search, the
  (url, caption) pairs \<open>st.image\<close> displayed, and the texts of \<open>st.warning\<close>.
\<close>

record effects =
  searches :: "pystr list"
  images :: "(pystr \<times> pystr) list"
  warnings :: "pystr list"

definition no_effects :: effects where
  "no_effects = \<lparr>searches = [], images = [], warnings = []\<rparr>"

text \<open>
  \<open>requests.get("https://serpapi.com/search", params).json()\<close> raises, or gives a
  dictionary; \<open>images_results\<close>, when present, is a list of dictionaries, each taken as
  its \<open>original\<close> entry.
\<close>

datatype search_outcome = Search_raised pystr | Search_json "pystr option list option"

text \<open>
  The surroundings: the module's \<open>serpapi_api_key\<close>, the image search by its query
  \<open>q\<close>, and whether \<open>st.image(url, caption=...)\<close> returns (\<open>True\<close>) or raises.
\<close>

record env =
  serpapi_api_key :: "pystr option"
  requests_get :: "pystr \<Rightarrow> search_outcome"
  st_image :: "pystr \<Rightarrow> pystr \<Rightarrow> bool"

text \<open>\<open>for i, img_result in enumerate(results['images_results'][:3]): ...\<close>\<close>

fun show_results :: "env \<Rightarrow> pystr \<Rightarrow> (nat \<times> pystr option) list \<Rightarrow> effects \<Rightarrow> effects" where
  "show_results e dest [] fx = fx"
| "show_results e dest ((i, img_result) # rest) fx =
     (case img_result of
        None \<Rightarrow> show_results e dest rest fx
      | Some img_url \<Rightarrow>
          if img_url \<noteq> [] then
            let caption = dest @ py '' attraction '' @ str_int (int i + 1) in
            if st_image e img_url caption
            then show_results e dest rest (fx\<lparr>images := images fx @ [(img_url, caption)]\<rparr>)
            else show_results e dest rest fx
          else show_results e dest rest fx)"

text \<open>The body of \<open>if not list(image_matches) and destination and serpapi_api_key:\<close>\<close>

definition external_search :: "env \<Rightarrow> pystr \<Rightarrow> effects \<Rightarrow> effects" where
  "external_search e dest fx =
     (let search_query = dest @ py '' travel attractions'';
          fx1 = fx\<lparr>searches := searches fx @ [search_query]\<rparr>
      in case requests_get e search_query of
           Search_raised msg \<Rightarrow>
             fx1\<lparr>warnings := warnings fx1 @ [py ''Couldn't fetch additional images: '' @ msg]\<rparr>
         | Search_json results \<Rightarrow>
             (case results of
                None \<Rightarrow> fx1
              | Some images_results \<Rightarrow>
                  show_results e dest
                    (zip [0..<length (take 3 images_results)] (take 3 images_results)) fx1))"

text \<open>
  \<open>for match in image_matches: try: st.image(...); markdown_text =
  markdown_text.replace(match.group(0), "")  except: continue\<close>. The matches were found
  in the text as it came in; the replacement works on the text as it is by then.
\<close>

fun show_images :: "env \<Rightarrow> (pystr \<times> pystr) list \<Rightarrow> pystr \<Rightarrow> effects \<Rightarrow> pystr \<times> effects" where
  "show_images e [] markdown_text fx = (markdown_text, fx)"
| "show_images e ((alt_text, image_url) # ms) markdown_text fx =
     (let caption = (if alt_text \<noteq> [] then alt_text else py ''Travel Image'') in
      if st_image e image_url caption
      then show_images e ms (replace_all (group0 (alt_text, image_url)) markdown_text)
             (fx\<lparr>images := images fx @ [(image_url, caption)]\<rparr>)
      else show_images e ms markdown_text fx)"

definition display_images_from_markdown ::
  "env \<Rightarrow> pystr \<Rightarrow> pystr option \<Rightarrow> effects \<Rightarrow> pystr \<times> effects" where
  "display_images_from_markdown e markdown_text destination_arg fx =
     (let dest = (if \<not> truthy destination_arg then search_destination markdown_text
                  else destination_arg);
          ms = image_matches markdown_text;
          fx1 = (if ms = [] \<and> truthy dest \<and> truthy (serpapi_api_key e)
                 then (case dest of Some d \<Rightarrow> external_search e d fx | None \<Rightarrow> fx)
                 else fx)
      in show_images e ms markdown_text fx1)"

section \<open>The Document Renderer (globe.py, test.py)\<close>

text \<open>
  \<open>markdown.markdown\<close>, \<open>BeautifulSoup\<close> and reportlab are libraries. The parsed
  document is taken as the list of its tags in document order, each with its name, its
  \<open>.text\<close> and its \<open>src\<close> attribute; \<open>find_all\<close> with a list of names keeps the tags
  so named, in that order.
\<close>

record tag =
  tag_name :: pystr
  tag_text :: pystr
  tag_src :: "pystr option"

definition find_all :: "pystr list \<Rightarrow> tag list \<Rightarrow> tag list" where
  "find_all names soup = filter (\<lambda>t. tag_name t \<in> set names) soup"

text \<open>
  What the renderer takes from the libraries: \<open>markdown_tags text\<close> is the tag list of
  \<open>BeautifulSoup(markdown.markdown(text), 'html.parser')\<close>, and \<open>markup_parses text\<close>
  says whether reportlab's \<open>Paragraph(text, style)\<close> can parse the text as its
  paragraph markup; where it cannot, the constructor raises \<open>ValueError\<close>.
\<close>

record libs =
  markdown_tags :: "pystr \<Rightarrow> tag list"
  markup_parses :: "pystr \<Rightarrow> bool"

text \<open>
  The flowables handed to \<open>doc.build\<close>. \<open>Spacer w h\<close> is \<open>Spacer(w, (h/100)*inch)\<close>.
  \<open>Image mw w h\<close> is the embedded picture of display width \<open>mw\<close> made from a decoded
  picture of \<open>w\<close> by \<open>h\<close> pixels; its display height is the floating-point value
  \<open>int(float(h) * (mw / float(w)))\<close>, which the model does not compute.
\<close>

datatype style =
  Title | Heading1 | Heading2 | Normal | SectionStyle | DayStyle | BulletStyle | Footer

datatype flowable = Paragraph pystr style | Spacer nat nat | Image nat nat nat

text \<open>
  \<open>Paragraph(text, style)\<close> parses its text when it is built: it gives the flowable,
  or raises \<open>ValueError\<close>, which nothing in \<open>get_pdf_download_link\<close> catches. The
  error is kept with the text that was refused (reportlab's message quotes how the
  paragraph begins). \<open>and_then\<close> runs the next statement unless the one before raised.
\<close>

datatype render_error = ValueError pystr

definition new_paragraph :: "(pystr \<Rightarrow> bool) \<Rightarrow> pystr \<Rightarrow> style \<Rightarrow> render_error + flowable" where
  "new_paragraph parses t s =
     (if parses t then Inr (Paragraph t s) else Inl (ValueError t))"

definition and_then :: "render_error + 'a \<Rightarrow> ('a \<Rightarrow> render_error + 'b) \<Rightarrow> render_error + 'b" where
  "and_then r f = (case r of Inl e \<Rightarrow> Inl e | Inr x \<Rightarrow> f x)"

text \<open>
  The bullet prefix of a list item (the character U+2022 and a space) and the footer's
  text.
\<close>

definition bullet :: pystr where
  "bullet = [8226, 32]"

definition footer_text :: pystr where
  "footer_text = py ''Generated by GlobeTrek - Your AI Travel Companion''"

text \<open>
  The four header flowables the function starts with, and the two it ends with.
\<close>

definition add_header :: "(pystr \<Rightarrow> bool) \<Rightarrow> pystr \<Rightarrow> pystr \<Rightarrow> render_error + flowable list" where
  "add_header parses dest travel_dates =
     and_then (new_paragraph parses (py ''Travel Itinerary to '' @ dest) Title) (\<lambda>p1.
     and_then (new_paragraph parses (py ''Travel Dates: '' @ travel_dates) Heading2) (\<lambda>p2.
     Inr [p1, Spacer 1 20, p2, Spacer 1 30]))"

definition add_footer :: "(pystr \<Rightarrow> bool) \<Rightarrow> flowable list \<Rightarrow> render_error + flowable list" where
  "add_footer parses elements =
     and_then (new_paragraph parses footer_text Footer) (\<lambda>p.
     Inr (elements @ [Spacer 1 50, p]))"

text \<open>
  The loop over the tags found, globe.py: the \<open>if\<close>/\<open>elif\<close> chain on \<open>element.name\<close>.
\<close>

fun process_tags :: "(pystr \<Rightarrow> bool) \<Rightarrow> tag list \<Rightarrow> flowable list \<Rightarrow> render_error + flowable list" where
  "process_tags parses [] elements = Inr elements"
| "process_tags parses (element # rest) elements =
     (case
        (if tag_name element = py ''h1'' then
           and_then (new_paragraph parses (tag_text element) Heading1) (\<lambda>p.
           Inr (elements @ [p, Spacer 1 10]))
         else if tag_name element = py ''h2'' then
           and_then (new_paragraph parses (tag_text element) SectionStyle) (\<lambda>p.
           Inr (elements @ [p, Spacer 1 10]))
         else if tag_name element = py ''h3'' then
           and_then (new_paragraph parses (tag_text element) DayStyle) (\<lambda>p.
           Inr (elements @ [p]))
         else if tag_name element = py ''p'' then
           and_then (new_paragraph parses (tag_text element) Normal) (\<lambda>p.
           Inr (elements @ [p, Spacer 1 5]))
         else if tag_name element = py ''ul'' then
           Inr elements
         else if tag_name element = py ''li'' then
           and_then (new_paragraph parses (bullet @ tag_text element) BulletStyle) (\<lambda>p.
           Inr (elements @ [p]))
         else Inr elements) of
        Inl e \<Rightarrow> Inl e
      | Inr elements' \<Rightarrow> process_tags parses rest elements')"

text \<open>
  \<open>for line in markdown_text.split('\n'): if line.strip(): ...\<close>
\<close>

fun raw_lines :: "(pystr \<Rightarrow> bool) \<Rightarrow> pystr list \<Rightarrow> flowable list \<Rightarrow> render_error + flowable list" where
  "raw_lines parses [] elements = Inr elements"
| "raw_lines parses (line # rest) elements =
     (case
        (if strip line \<noteq> [] then
           and_then (new_paragraph parses line Normal) (\<lambda>p.
           Inr (elements @ [p, Spacer 1 5]))
         else Inr elements) of
        Inl e \<Rightarrow> Inl e
      | Inr elements' \<Rightarrow> raw_lines parses rest elements')"

text \<open>
  \<open>get_pdf_download_link\<close> of globe.py up to the call of \<open>doc.build\<close>: the list
  \<open>elements\<close> it builds, or the \<open>ValueError\<close> that ends it before. The PDF bytes and
  the link around them are reportlab's and base64's work on that list.
\<close>

definition get_pdf_elements ::
  "libs \<Rightarrow> pystr \<Rightarrow> pystr \<Rightarrow> pystr \<Rightarrow> render_error + flowable list" where
  "get_pdf_elements lib markdown_text dest travel_dates =
     and_then (add_header (markup_parses lib) dest travel_dates) (\<lambda>elements0.
     and_then
       (process_tags (markup_parses lib)
          (find_all [py ''h1'', py ''h2'', py ''h3'', py ''p'', py ''ul'', py ''li'']
             (markdown_tags lib markdown_text))
          elements0) (\<lambda>elements1.
     and_then
       (if length elements1 \<le> 4 then raw_lines (markup_parses lib) (split 10 markdown_text) elements1
        else Inr elements1) (\<lambda>elements2.
     add_footer (markup_parses lib) elements2)))"

text \<open>
  test.py adds the \<open>img\<close> branch, with its own \<open>try\<close>, and the texts of
  \<open>st.warning\<close>. \<open>requests.get(img_url, stream=True, timeout=5)\<close> raises, or answers
  with a status code and a content that \<open>PIL\<close> opens and saves as a picture of some width
  and height, or fails to. A width of 0 makes \<open>max_width / float(pil_img.width)\<close> raise
  \<open>ZeroDivisionError\<close>.
\<close>

datatype pil_outcome = Pil_raised pystr | Pil_image nat nat

datatype http_outcome = Http_raised pystr | Http_response nat pil_outcome

fun process_tags_img ::
  "(pystr \<Rightarrow> bool) \<Rightarrow> (pystr option \<Rightarrow> http_outcome) \<Rightarrow> tag list \<Rightarrow> flowable list \<times> pystr list \<Rightarrow>
     (render_error + flowable list) \<times> pystr list" where
  "process_tags_img parses fetch [] (elements, warned) = (Inr elements, warned)"
| "process_tags_img parses fetch (element # rest) (elements, warned) =
     (case
        (if tag_name element = py ''h1'' then
           (and_then (new_paragraph parses (tag_text element) Heading1) (\<lambda>p.
            Inr (elements @ [p, Spacer 1 10])), warned)
         else if tag_name element = py ''h2'' then
           (and_then (new_paragraph parses (tag_text element) SectionStyle) (\<lambda>p.
            Inr (elements @ [p, Spacer 1 10])), warned)
         else if tag_name element = py ''h3'' then
           (and_then (new_paragraph parses (tag_text element) DayStyle) (\<lambda>p.
            Inr (elements @ [p])), warned)
         else if tag_name element = py ''p'' then
           (and_then (new_paragraph parses (tag_text element) Normal) (\<lambda>p.
            Inr (elements @ [p, Spacer 1 5])), warned)
         else if tag_name element = py ''ul'' then
           (Inr elements, warned)
         else if tag_name element = py ''li'' then
           (and_then (new_paragraph parses (bullet @ tag_text element) BulletStyle) (\<lambda>p.
            Inr (elements @ [p])), warned)
         else if tag_name element = py ''img'' then
           (case fetch (tag_src element) of
              Http_raised msg \<Rightarrow>
                (Inr elements, warned @ [py ''Couldn't include image in PDF: '' @ msg])
            | Http_response status_code pil \<Rightarrow>
                if status_code = 200 then
                  (case pil of
                     Pil_raised msg \<Rightarrow>
                       (Inr elements, warned @ [py ''Couldn't include image in PDF: '' @ msg])
                   | Pil_image w h \<Rightarrow>
                       if w = 0 then
                         (Inr elements,
                          warned @
                          [py ''Couldn't include image in PDF: float division by zero''])
                       else (Inr (elements @ [Image 400 w h]), warned))
                else (Inr elements, warned))
         else (Inr elements, warned)) of
        (Inl e, warned') \<Rightarrow> (Inl e, warned')
      | (Inr elements', warned') \<Rightarrow> process_tags_img parses fetch rest (elements', warned'))"

definition get_pdf_elements_img ::
  "libs \<Rightarrow> (pystr option \<Rightarrow> http_outcome) \<Rightarrow> pystr \<Rightarrow> pystr \<Rightarrow> pystr \<Rightarrow>
     (render_error + flowable list) \<times> pystr list" where
  "get_pdf_elements_img lib fetch markdown_text dest travel_dates =
     (case add_header (markup_parses lib) dest travel_dates of
        Inl e \<Rightarrow> (Inl e, [])
      | Inr elements0 \<Rightarrow>
          (case process_tags_img (markup_parses lib) fetch
                  (find_all [py ''h1'', py ''h2'', py ''h3'', py ''p'', py ''ul'', py ''li'',
                             py ''img''] (markdown_tags lib markdown_text))
                  (elements0, []) of
             (Inl e, warned) \<Rightarrow> (Inl e, warned)
           | (Inr elements1, warned) \<Rightarrow>
               (and_then
                  (if length elements1 \<le> 4
                   then raw_lines (markup_parses lib) (split 10 markdown_text) elements1
                   else Inr elements1) (\<lambda>elements2.
                add_footer (markup_parses lib) elements2), warned)))"

section \<open>Notions and examples the theorems are stated with\<close>

subsection \<open>Blocks, lines and failing images\<close>

text \<open>
  The header and footer flowables as values, and what it takes for them to be built: the
  two header texts and the footer text parse as paragraph markup.
\<close>

definition header :: "pystr \<Rightarrow> pystr \<Rightarrow> flowable list" where
  "header dest travel_dates =
     [Paragraph (py ''Travel Itinerary to '' @ dest) Title, Spacer 1 20,
      Paragraph (py ''Travel Dates: '' @ travel_dates) Heading2, Spacer 1 30]"

definition footer :: "flowable list" where
  "footer = [Spacer 1 50, Paragraph footer_text Footer]"

definition frame_parses :: "(pystr \<Rightarrow> bool) \<Rightarrow> pystr \<Rightarrow> pystr \<Rightarrow> bool" where
  "frame_parses parses dest travel_dates \<longleftrightarrow>
     parses (py ''Travel Itinerary to '' @ dest) \<and>
     parses (py ''Travel Dates: '' @ travel_dates) \<and>
     parses footer_text"

text \<open>
  The output blocks of a flowable list are its paragraphs; the blocks a tag list stands
  for are the paragraphs the loop makes of its \<open>h1\<close>, \<open>h2\<close>, \<open>h3\<close>, \<open>p\<close> and \<open>li\<close> tags,
  and \<open>block_text\<close> is the text such a paragraph is built from.
\<close>

definition is_paragraph :: "flowable \<Rightarrow> bool" where
  "is_paragraph x = (case x of Paragraph t s \<Rightarrow> True | _ \<Rightarrow> False)"

definition paragraphs :: "render_error + flowable list \<Rightarrow> render_error + flowable list" where
  "paragraphs r = (case r of Inl e \<Rightarrow> Inl e | Inr elements \<Rightarrow> Inr (filter is_paragraph elements))"

definition recognised :: "tag \<Rightarrow> bool" where
  "recognised t \<longleftrightarrow> tag_name t \<in> set [py ''h1'', py ''h2'', py ''h3'', py ''p'', py ''li'']"

definition block_text :: "tag \<Rightarrow> pystr" where
  "block_text t = (if tag_name t = py ''li'' then bullet @ tag_text t else tag_text t)"

definition block_of :: "tag \<Rightarrow> flowable" where
  "block_of t =
     (if tag_name t = py ''h1'' then Paragraph (tag_text t) Heading1
      else if tag_name t = py ''h2'' then Paragraph (tag_text t) SectionStyle
      else if tag_name t = py ''h3'' then Paragraph (tag_text t) DayStyle
      else if tag_name t = py ''p'' then Paragraph (tag_text t) Normal
      else Paragraph (bullet @ tag_text t) BulletStyle)"

text \<open>
  The lines of the raw text the fallback turns into paragraphs (\<open>if line.strip()\<close>),
  the lines that are not empty, and the two flowables the fallback appends for a line.
\<close>

definition nonblank_lines :: "pystr \<Rightarrow> pystr list" where
  "nonblank_lines s = filter (\<lambda>line. strip line \<noteq> []) (split 10 s)"

definition nonempty_lines :: "pystr \<Rightarrow> pystr list" where
  "nonempty_lines s = filter (\<lambda>line. line \<noteq> []) (split 10 s)"

definition line_flowables :: "pystr \<Rightarrow> flowable list" where
  "line_flowables line = [Paragraph line Normal, Spacer 1 5]"

text \<open>
  A tag that is a wrapper of a list.
\<close>

definition list_wrapper :: "tag \<Rightarrow> bool" where
  "list_wrapper t \<longleftrightarrow> tag_name t = py ''ul'' \<or> tag_name t = py ''ol''"

text \<open>
  An \<open>img\<close> tag whose fetch or decode fails: the request raises, the status is not 200,
  or the picture cannot be opened, saved or scaled. A tag yields a flowable when it is a
  recognised tag or an \<open>img\<close> tag whose picture loads.
\<close>

definition fetch_fails :: "(pystr option \<Rightarrow> http_outcome) \<Rightarrow> tag \<Rightarrow> bool" where
  "fetch_fails fetch t =
     (case fetch (tag_src t) of
        Http_raised msg \<Rightarrow> True
      | Http_response status_code pil \<Rightarrow>
          status_code \<noteq> 200 \<or> (case pil of Pil_raised msg \<Rightarrow> True | Pil_image w h \<Rightarrow> w = 0))"

definition yields :: "(pystr option \<Rightarrow> http_outcome) \<Rightarrow> tag \<Rightarrow> bool" where
  "yields fetch t \<longleftrightarrow> recognised t \<or> (tag_name t = py ''img'' \<and> \<not> fetch_fails fetch t)"

subsection \<open>Example documents\<close>

text \<open>
  Text without \<open><\<close> (60) and \<open>&\<close> (38) holds no markup, and reportlab takes it as it
  is. The example library refuses every other text; of the texts below that concerns
  \<open>Use <b> tags\<close> and \<open>#### a <b> c\<close>, which reportlab refuses for the \<open><b>\<close> that is
  never closed.
\<close>

definition plain_markup :: "pystr \<Rightarrow> bool" where
  "plain_markup t \<longleftrightarrow> 60 \<notin> set t \<and> 38 \<notin> set t"

text \<open>
  The example of the specification, and the tags python-markdown and BeautifulSoup make
  of it: \<open><h1>Paris Trip</h1> <h2>Day 1</h2> <ul> <li>Visit the Louvre</li> <li>Eat
  croissants</li> </ul>\<close>.
\<close>

definition paris_md :: pystr where
  "paris_md =
     py ''# Paris Trip'' @ [10] @ py ''## Day 1'' @ [10] @ py ''- Visit the Louvre'' @ [10] @
     py ''- Eat croissants''"

definition paris_soup :: "tag list" where
  "paris_soup =
     [\<lparr>tag_name = py ''h1'', tag_text = py ''Paris Trip'', tag_src = None\<rparr>,
      \<lparr>tag_name = py ''h2'', tag_text = py ''Day 1'', tag_src = None\<rparr>,
      \<lparr>tag_name = py ''ul'',
       tag_text = [10] @ py ''Visit the Louvre'' @ [10] @ py ''Eat croissants'' @ [10],
       tag_src = None\<rparr>,
      \<lparr>tag_name = py ''li'', tag_text = py ''Visit the Louvre'', tag_src = None\<rparr>,
      \<lparr>tag_name = py ''li'', tag_text = py ''Eat croissants'', tag_src = None\<rparr>]"

text \<open>
  A heading and a paragraph of two lines, written with \<open>#\<close> and with an underline:
  \<open><h1>Title</h1> <p>line one\nline two</p>\<close> both.
\<close>

definition short_md :: pystr where
  "short_md = py ''# Title'' @ [10] @ py ''line one'' @ [10] @ py ''line two''"

definition setext_md :: pystr where
  "setext_md = py ''Title'' @ [10] @ py ''====='' @ [10] @ py ''line one'' @ [10] @ py ''line two''"

definition short_soup :: "tag list" where
  "short_soup =
     [\<lparr>tag_name = py ''h1'', tag_text = py ''Title'', tag_src = None\<rparr>,
      \<lparr>tag_name = py ''p'', tag_text = py ''line one'' @ [10] @ py ''line two'',
       tag_src = None\<rparr>]"

text \<open>
  A level-4 heading alone, \<open><h4>Notes</h4>\<close>, and a thematic break alone, \<open><hr />\<close>.
\<close>

definition notes_md :: pystr where
  "notes_md = py ''#### Notes''"

definition notes_soup :: "tag list" where
  "notes_soup = [\<lparr>tag_name = py ''h4'', tag_text = py ''Notes'', tag_src = None\<rparr>]"

definition rule_md :: pystr where
  "rule_md = py ''---''"

definition rule_soup :: "tag list" where
  "rule_soup = [\<lparr>tag_name = py ''hr'', tag_text = [], tag_src = None\<rparr>]"

text \<open>
  Text that is markup to reportlab: \<open><h1>Trip</h1> <p>Use <code>&lt;b&gt;</code>
  tags</p>\<close>, whose paragraph has the text \<open>Use <b> tags\<close>, and a level-4 heading with
  a raw \<open><b>\<close> in it, \<open><h4>a <b> c</b></h4>\<close> as the HTML parser reads it.
\<close>

definition tagged_md :: pystr where
  "tagged_md = py ''# Trip'' @ [10, 10] @ py ''Use `<b>` tags''"

definition tagged_soup :: "tag list" where
  "tagged_soup =
     [\<lparr>tag_name = py ''h1'', tag_text = py ''Trip'', tag_src = None\<rparr>,
      \<lparr>tag_name = py ''p'', tag_text = py ''Use <b> tags'', tag_src = None\<rparr>,
      \<lparr>tag_name = py ''code'', tag_text = py ''<b>'', tag_src = None\<rparr>]"

definition markup_md :: pystr where
  "markup_md = py ''#### a <b> c''"

definition markup_soup :: "tag list" where
  "markup_soup =
     [\<lparr>tag_name = py ''h4'', tag_text = py ''a  c'', tag_src = None\<rparr>,
      \<lparr>tag_name = py ''b'', tag_text = py '' c'', tag_src = None\<rparr>]"

text \<open>
  A paragraph with two pictures, \<open><p>See <img src=".../bad.png"/> and <img
  src=".../good.png"/> here</p>\<close>, and the same without the first; a level-4 heading that
  holds a picture, \<open><h4>Notes <img src=".../bad.png"/></h4>\<close>, and the same without it;
  and a network on which \<open>bad.png\<close> cannot be fetched and \<open>good.png\<close> is a picture of
  800 by 600 pixels.
\<close>

definition bad_img :: tag where
  "bad_img = \<lparr>tag_name = py ''img'', tag_text = [], tag_src = Some (py ''http://x/bad.png'')\<rparr>"

definition good_img :: tag where
  "good_img = \<lparr>tag_name = py ''img'', tag_text = [], tag_src = Some (py ''http://x/good.png'')\<rparr>"

definition views_md :: pystr where
  "views_md = py ''See ![one](http://x/bad.png) and ![two](http://x/good.png) here''"

definition one_view_md :: pystr where
  "one_view_md = py ''See  and ![two](http://x/good.png) here''"

definition views_p :: tag where
  "views_p = \<lparr>tag_name = py ''p'', tag_text = py ''See  and  here'', tag_src = None\<rparr>"

definition notes_img_md :: pystr where
  "notes_img_md = py ''#### Notes ![a](http://x/bad.png)''"

definition notes_img_soup :: "tag list" where
  "notes_img_soup = [\<lparr>tag_name = py ''h4'', tag_text = py ''Notes '', tag_src = None\<rparr>, bad_img]"

definition notes_gap_md :: pystr where
  "notes_gap_md = py ''#### Notes ''"

definition flaky_fetch :: "pystr option \<Rightarrow> http_outcome" where
  "flaky_fetch img_url =
     (if img_url = Some (py ''http://x/good.png'') then Http_response 200 (Pil_image 800 600)
      else Http_raised (py ''connection timed out''))"

text \<open>
  The library of the examples: the tags of the texts above, no tag for any other text (of
  these only the text of two spaces is used, which has none), and \<open>plain_markup\<close>.
\<close>

definition example_tags :: "pystr \<Rightarrow> tag list" where
  "example_tags markdown_text =
     (if markdown_text = paris_md then paris_soup
      else if markdown_text = short_md \<or> markdown_text = setext_md then short_soup
      else if markdown_text = notes_md then notes_soup
      else if markdown_text = rule_md then rule_soup
      else if markdown_text = tagged_md then tagged_soup
      else if markdown_text = markup_md then markup_soup
      else if markdown_text = views_md then [views_p, bad_img, good_img]
      else if markdown_text = one_view_md then [views_p, good_img]
      else if markdown_text = notes_img_md then notes_img_soup
      else if markdown_text = notes_gap_md then notes_soup
      else [])"

definition example_lib :: libs where
  "example_lib = \<lparr>markdown_tags = example_tags, markup_parses = plain_markup\<rparr>"

subsection \<open>Documents made of plain text and image references\<close>

text \<open>
  \<open>alt_text if alt_text else "Travel Image"\<close>, the caption \<open>show_images\<close> passes to
  \<open>st.image\<close>.
\<close>

definition caption_of :: "pystr \<Rightarrow> pystr" where
  "caption_of alt_text = (if alt_text \<noteq> [] then alt_text else py ''Travel Image'')"

text \<open>
  A text written as a sequence of pieces: plain text, and image references
  \<open>![alt](url)\<close>. \<open>no_image_head s\<close> says that \<open>![\<close> (33, 91) occurs nowhere in \<open>s\<close>.
  A reference is proper when its alt text has no \<open>![\<close>, no \<open>]\<close> (93) and no newline,
  and its URL has no \<open>![\<close>, no \<open>)\<close> (41) and no newline. \<open>plain_text\<close> is the text
  with all its references taken out. A text is simple when its references are proper
  and what is left without them holds no \<open>![\<close>. \<open>displayed\<close> says whether \<open>st.image\<close>
  returns for a piece.
\<close>

datatype piece = Plain pystr | Ref pystr pystr

fun piece_text :: "piece \<Rightarrow> pystr" where
  "piece_text (Plain s) = s"
| "piece_text (Ref alt url) = group0 (alt, url)"

definition flatten :: "piece list \<Rightarrow> pystr" where
  "flatten ps = concat (map piece_text ps)"

fun no_image_head :: "pystr \<Rightarrow> bool" where
  "no_image_head (c # d # s) \<longleftrightarrow> \<not> (c = 33 \<and> d = 91) \<and> no_image_head (d # s)"
| "no_image_head s \<longleftrightarrow> True"

fun proper_ref :: "piece \<Rightarrow> bool" where
  "proper_ref (Plain s) \<longleftrightarrow> True"
| "proper_ref (Ref alt url) \<longleftrightarrow>
     no_image_head alt \<and> 93 \<notin> set alt \<and> 10 \<notin> set alt \<and>
     no_image_head url \<and> 41 \<notin> set url \<and> 10 \<notin> set url"

fun plain_text :: "piece list \<Rightarrow> pystr" where
  "plain_text [] = []"
| "plain_text (Plain s # ps) = s @ plain_text ps"
| "plain_text (Ref alt url # ps) = plain_text ps"

definition simple :: "piece list \<Rightarrow> bool" where
  "simple ps \<longleftrightarrow> list_all proper_ref ps \<and> no_image_head (plain_text ps)"

fun refs_of :: "piece list \<Rightarrow> (pystr \<times> pystr) list" where
  "refs_of [] = []"
| "refs_of (Plain s # ps) = refs_of ps"
| "refs_of (Ref alt url # ps) = (alt, url) # refs_of ps"

fun displayed :: "env \<Rightarrow> piece \<Rightarrow> bool" where
  "displayed e (Plain s) = False"
| "displayed e (Ref alt url) = st_image e url (caption_of alt)"

subsection \<open>Example surroundings and texts\<close>

text \<open>
  Without network and with a display that always raises; with an image search that
  finds five results of which the second has no \<open>original\<close>, and a display that raises
  for the path \<open>bad.png\<close> only; and the latter without its API key.
\<close>

definition offline_env :: env where
  "offline_env =
     \<lparr>serpapi_api_key = None,
      requests_get = (\<lambda>q. Search_raised (py ''offline'')),
      st_image = (\<lambda>url caption. False)\<rparr>"

definition online_env :: env where
  "online_env =
     \<lparr>serpapi_api_key = Some (py ''key''),
      requests_get = (\<lambda>q. Search_json (Some
        [Some (py ''http://x/1.jpg''), None, Some (py ''http://x/2.jpg''),
         Some (py ''http://x/3.jpg''), Some (py ''http://x/4.jpg'')])),
      st_image = (\<lambda>url caption. url \<noteq> py ''bad.png'')\<rparr>"

definition keyless_env :: env where
  "keyless_env = online_env\<lparr>serpapi_api_key := None\<rparr>"

text \<open>
  The text \<open>[Paris](http://p.fr) wow! See ![Eiffel](http://x/e.png) and ![](bad.png).
  Enjoy!\<close>
\<close>

definition guide_pieces :: "piece list" where
  "guide_pieces =
     [Plain (py ''[Paris](http://p.fr) wow! See ''), Ref (py ''Eiffel'') (py ''http://x/e.png''),
      Plain (py '' and ''), Ref [] (py ''bad.png''), Plain (py ''. Enjoy!'')]"

text \<open>
  A client as the SDK builds it: airports are found for \<open>Delhi\<close>, flights from
  \<open>DEL\<close>, every other request is answered with a \<open>ResponseError\<close>, and
  \<open>reference_data.locations\<close> has no attribute \<open>by_id\<close>.
\<close>

definition sdk_client :: "pystr list amadeus_client" where
  "sdk_client =
     \<lparr>locations_get =
        (\<lambda>keyword. if keyword = py ''Delhi'' then Api_data [py ''DEL'']
                   else Api_ResponseError (py ''[400]'')),
      flight_offers_search_get =
        (\<lambda>params. if originLocationCode params = py ''DEL'' then Api_data [py ''AI 143'']
                  else Api_ResponseError (py ''[400]'')),
      locations_by_id = None\<rparr>"

definition new_sdk_client :: "pystr \<Rightarrow> pystr \<Rightarrow> pystr + pystr list amadeus_client" where
  "new_sdk_client cid csec = Inr sdk_client"

text \<open>
  Two forms as a user may fill them in, an agent that raises and one that answers.
\<close>

definition paris_form :: "unit form" where
  "paris_form =
     \<lparr>origin = py ''DEL'', destination = py ''Paris'', start_date = (), end_date = (),
      travelers = 2, budget_option = py ''Budget'', interests = [], accommodation = py ''Any'',
      additional_notes = []\<rparr>"

definition rome_form :: "unit form" where
  "rome_form = paris_form\<lparr>destination := py ''Rome''\<rparr>"

definition failing_agent :: "pystr \<Rightarrow> agent_outcome" where
  "failing_agent prompt = Agent_raised (py ''rate limit reached'')"

definition answering_agent :: "pystr \<Rightarrow> agent_outcome" where
  "answering_agent prompt = Agent_response (Some (py ''Day 1: the Colosseum''))"

section \<open>Theorems\<close>

text \<open>
  C9. For every combination of the other form inputs, \<open>construct_query\<close> of main.py and
  of globe.py returns the empty string when the destination field is empty, and a
  non-empty prompt exactly when the destination is non-empty.
\<close>

theorem construct_query_empty_iff:
  "(construct_query_main strftime f = [] \<longleftrightarrow> destination f = []) \<and>
   (construct_query_globe strftime f = [] \<longleftrightarrow> destination f = [])"
  by (simp add: construct_query_main_def construct_query_globe_def build_query_def
      Let_def py_def)

subsection \<open>The Document Renderer\<close>

lemma py_names [simp]:
  "py ''h1'' = [104, 49]" "py ''h2'' = [104, 50]" "py ''h3'' = [104, 51]"
  "py ''p'' = [112]" "py ''ul'' = [117, 108]" "py ''li'' = [108, 105]"
  "py ''img'' = [105, 109, 103]" "py ''ol'' = [111, 108]"
  by (simp_all add: py_def)

lemma and_then_simps [simp]:
  "and_then (Inl e) f = Inl e" "and_then (Inr x) f = f x"
  by (simp_all add: and_then_def)

lemma new_paragraph_simps:
  "parses t \<Longrightarrow> new_paragraph parses t s = Inr (Paragraph t s)"
  "\<not> parses t \<Longrightarrow> new_paragraph parses t s = Inl (ValueError t)"
  by (simp_all add: new_paragraph_def)

lemma add_header_ok:
  "frame_parses parses dest travel_dates \<Longrightarrow> add_header parses dest travel_dates = Inr (header dest travel_dates)"
  by (simp add: frame_parses_def add_header_def header_def new_paragraph_simps)

lemma add_footer_ok:
  "frame_parses parses dest travel_dates \<Longrightarrow> add_footer parses elements = Inr (elements @ footer)"
  by (simp add: frame_parses_def add_footer_def footer_def new_paragraph_simps)

lemma process_tags_step:
  "process_tags parses (t # ts) els =
     (if recognised t then
        (if parses (block_text t)
         then process_tags parses ts
                (els @ block_of t #
                   (if tag_name t = py ''h1'' \<or> tag_name t = py ''h2'' then [Spacer 1 10]
                    else if tag_name t = py ''p'' then [Spacer 1 5] else []))
         else Inl (ValueError (block_text t)))
      else process_tags parses ts els)"
  by (auto simp: recognised_def block_text_def block_of_def new_paragraph_def)

lemma process_tags_ok:
  "list_all (\<lambda>t. parses (block_text t)) (filter recognised ts) \<Longrightarrow>
   \<exists>els'. process_tags parses ts els = Inr els' \<and>
          filter is_paragraph els' = filter is_paragraph els @ map block_of (filter recognised ts) \<and>
          length els + length (filter recognised ts) \<le> length els'"
proof (induction ts arbitrary: els)
  case Nil
  show ?case by simp
next
  case (Cons t ts)
  show ?case
  proof (cases "recognised t")
    case False
    with Cons.IH[of els] Cons.prems show ?thesis
      by (simp add: process_tags_step del: process_tags.simps)
  next
    case True
    let ?e = "els @ block_of t #
                   (if tag_name t = py ''h1'' \<or> tag_name t = py ''h2'' then [Spacer 1 10]
                    else if tag_name t = py ''p'' then [Spacer 1 5] else [])"
    from Cons.prems True have ok: "parses (block_text t)"
      and rest: "list_all (\<lambda>t. parses (block_text t)) (filter recognised ts)"
      by simp_all
    from Cons.IH[OF rest, of ?e] obtain els' where
      "process_tags parses ts ?e = Inr els'"
      "filter is_paragraph els' = filter is_paragraph ?e @ map block_of (filter recognised ts)"
      "length ?e + length (filter recognised ts) \<le> length els'"
      by blast
    moreover have "filter is_paragraph ?e = filter is_paragraph els @ [block_of t]"
      by (simp add: is_paragraph_def block_of_def)
    moreover have "length els + 1 \<le> length ?e" by simp
    ultimately show ?thesis
      using True ok by (simp add: process_tags_step del: process_tags.simps)
  qed
qed

lemma process_tags_rejected:
  "find (\<lambda>t. \<not> parses (block_text t)) (filter recognised ts) = Some t \<Longrightarrow>
   process_tags parses ts els = Inl (ValueError (block_text t))"
proof (induction ts arbitrary: els)
  case Nil
  then show ?case by simp
next
  case (Cons x ts)
  then show ?case
    by (cases "recognised x"; cases "parses (block_text x)")
       (simp_all add: process_tags_step del: process_tags.simps)
qed

lemma process_tags_length:
  "process_tags parses ts els = Inr els' \<Longrightarrow> length els + length (filter recognised ts) \<le> length els'"
proof (induction ts arbitrary: els)
  case Nil
  then show ?case by simp
next
  case (Cons t ts)
  show ?case
  proof (cases "recognised t")
    case False
    with Cons show ?thesis
      by (simp add: process_tags_step del: process_tags.simps)
  next
    case True
    let ?e = "els @ block_of t #
                   (if tag_name t = py ''h1'' \<or> tag_name t = py ''h2'' then [Spacer 1 10]
                    else if tag_name t = py ''p'' then [Spacer 1 5] else [])"
    from Cons.prems True have "process_tags parses ts ?e = Inr els'"
      by (auto simp add: process_tags_step simp del: process_tags.simps split: if_splits)
    from Cons.IH[OF this] True show ?thesis by simp
  qed
qed

lemma process_tags_unrecognised:
  "filter recognised ts = [] \<Longrightarrow> process_tags parses ts els = Inr els"
proof (induction ts arbitrary: els)
  case Nil
  show ?case by simp
next
  case (Cons t ts)
  then show ?case
    by (cases "recognised t") (simp_all add: process_tags_step del: process_tags.simps)
qed

lemma recognised_find_all:
  "filter recognised
     (find_all [py ''h1'', py ''h2'', py ''h3'', py ''p'', py ''ul'', py ''li''] soup) =
   filter recognised soup"
  by (induction soup) (auto simp: find_all_def recognised_def)

lemma raw_lines_ok:
  "list_all (parses) (filter (\<lambda>line. strip line \<noteq> []) ls) \<Longrightarrow>
   raw_lines parses ls els =
     Inr (els @ concat (map line_flowables (filter (\<lambda>line. strip line \<noteq> []) ls)))"
proof (induction ls arbitrary: els)
  case Nil
  show ?case by simp
next
  case (Cons x ls)
  show ?case
  proof (cases "strip x \<noteq> []")
    case True
    with Cons.prems have "parses x"
      and "list_all (parses) (filter (\<lambda>line. strip line \<noteq> []) ls)"
      by simp_all
    with True Cons.IH[of "els @ [Paragraph x Normal, Spacer 1 5]"] show ?thesis
      by (simp add: line_flowables_def new_paragraph_simps)
  next
    case False
    with Cons.prems Cons.IH[of els] show ?thesis by simp
  qed
qed

lemma raw_lines_rejected:
  "find (\<lambda>l. \<not> parses l) (filter (\<lambda>line. strip line \<noteq> []) ls) = Some l \<Longrightarrow>
   raw_lines parses ls els = Inl (ValueError l)"
proof (induction ls arbitrary: els)
  case Nil
  then show ?case by simp
next
  case (Cons x ls)
  then show ?case
    by (cases "strip x \<noteq> []"; cases "parses x")
       (simp_all add: new_paragraph_simps)
qed

lemma paragraphs_line_flowables:
  "filter is_paragraph (concat (map line_flowables ls)) = map (\<lambda>l. Paragraph l Normal) ls"
  by (induction ls) (simp_all add: line_flowables_def is_paragraph_def)

lemma length_header: "length (header dest travel_dates) = 4"
  by (simp add: header_def)

lemma get_pdf_elements_fallback:
  assumes "filter recognised (markdown_tags lib md) = []" and "frame_parses (markup_parses lib) dest travel_dates"
  shows "get_pdf_elements lib md dest travel_dates =
           and_then (raw_lines (markup_parses lib) (split 10 md) (header dest travel_dates)) (add_footer (markup_parses lib))"
proof -
  let ?found = "find_all [py ''h1'', py ''h2'', py ''h3'', py ''p'', py ''ul'', py ''li'']
                  (markdown_tags lib md)"
  from assms(1) have "filter recognised ?found = []"
    by (simp only: recognised_find_all)
  then have "process_tags (markup_parses lib) ?found (header dest travel_dates) = Inr (header dest travel_dates)"
    by (rule process_tags_unrecognised)
  then show ?thesis
    unfolding get_pdf_elements_def add_header_ok[OF assms(2)]
    by (simp only: and_then_simps length_header) simp
qed

lemma get_pdf_elements_structured:
  assumes "filter recognised (markdown_tags lib md) \<noteq> []" and "frame_parses (markup_parses lib) dest travel_dates"
  shows "get_pdf_elements lib md dest travel_dates =
           and_then
             (process_tags (markup_parses lib)
                (find_all [py ''h1'', py ''h2'', py ''h3'', py ''p'', py ''ul'', py ''li'']
                   (markdown_tags lib md))
                (header dest travel_dates))
             (add_footer (markup_parses lib))"
proof -
  let ?found = "find_all [py ''h1'', py ''h2'', py ''h3'', py ''p'', py ''ul'', py ''li'']
                  (markdown_tags lib md)"
  from assms(1) have pos: "length (filter recognised ?found) > 0"
    by (simp only: recognised_find_all) simp
  show ?thesis
  proof (cases "process_tags (markup_parses lib) ?found (header dest travel_dates)")
    case (Inl e)
    then show ?thesis
      unfolding get_pdf_elements_def add_header_ok[OF assms(2)]
      by (simp only: and_then_simps)
  next
    case (Inr els)
    from process_tags_length[OF this] pos have "length els > 4"
      unfolding length_header by linarith
    with Inr show ?thesis
      unfolding get_pdf_elements_def add_header_ok[OF assms(2)]
      by (simp only: and_then_simps) simp
  qed
qed

lemma process_tags_recognised:
  "process_tags parses ts els = process_tags parses (filter recognised ts) els"
proof (induction ts arbitrary: els)
  case Nil
  show ?case by simp
next
  case (Cons t ts)
  show ?case
  proof (cases "recognised t")
    case True
    then show ?thesis
      by (simp add: process_tags_step Cons.IH[symmetric] del: process_tags.simps)
  next
    case False
    then show ?thesis
      by (simp add: process_tags_step Cons.IH[symmetric] del: process_tags.simps)
  qed
qed

lemma recognised_without_wrappers:
  "filter recognised
     (find_all [py ''h1'', py ''h2'', py ''h3'', py ''p'', py ''ul'', py ''li'']
        (filter (\<lambda>t. \<not> list_wrapper t) soup)) =
   filter recognised
     (find_all [py ''h1'', py ''h2'', py ''h3'', py ''p'', py ''ul'', py ''li''] soup)"
  by (induction soup) (auto simp: find_all_def recognised_def list_wrapper_def)

lemma find_all_without_wrappers:
  "process_tags parses
     (find_all [py ''h1'', py ''h2'', py ''h3'', py ''p'', py ''ul'', py ''li'']
        (filter (\<lambda>t. \<not> list_wrapper t) soup)) els =
   process_tags parses
     (find_all [py ''h1'', py ''h2'', py ''h3'', py ''p'', py ''ul'', py ''li''] soup) els"
  by (subst process_tags_recognised, subst (2) process_tags_recognised)
     (simp only: recognised_without_wrappers)

lemmas example_defs =
  example_lib_def example_tags_def plain_markup_def paris_md_def paris_soup_def short_md_def
  setext_md_def short_soup_def notes_md_def notes_soup_def rule_md_def rule_soup_def
  tagged_md_def tagged_soup_def markup_md_def markup_soup_def views_md_def one_view_md_def
  views_p_def notes_img_md_def notes_img_soup_def notes_gap_md_def bad_img_def good_img_def
  flaky_fetch_def

lemmas render_defs =
  get_pdf_elements_def get_pdf_elements_img_def find_all_def add_header_def add_footer_def
  new_paragraph_def header_def footer_def footer_text_def bullet_def strip_def py_isspace_def
  py_def

text \<open>
  C1, as amended. The renderer falls back to the raw lines only when the parsed tree
  yields no block at all, so that \<open>elements\<close> still holds nothing but the four header
  flowables. Then, with header and footer built, it appends one body paragraph (and a
  spacer) per line of the input that \<open>strip()\<close> leaves non-empty, as many paragraphs as
  there are such lines, provided reportlab parses every such line; the first line it
  does not parse ends the operation with \<open>ValueError\<close>. As soon as the parsed tree yields
  one block there is no fallback: two texts with the same tags are rendered alike.
\<close>

theorem fallback_only_without_blocks:
  "(filter recognised (markdown_tags lib markdown_text) = [] \<and>
    frame_parses (markup_parses lib) dest travel_dates \<longrightarrow>
      (list_all (markup_parses lib) (nonblank_lines markdown_text) \<longrightarrow>
         get_pdf_elements lib markdown_text dest travel_dates =
           Inr (header dest travel_dates @
                concat (map line_flowables (nonblank_lines markdown_text)) @ footer)) \<and>
      (\<forall>line. find (\<lambda>l. \<not> markup_parses lib l) (nonblank_lines markdown_text) = Some line \<longrightarrow>
         get_pdf_elements lib markdown_text dest travel_dates = Inl (ValueError line)) \<and>
      length (filter is_paragraph (concat (map line_flowables (nonblank_lines markdown_text)))) =
        length (nonblank_lines markdown_text)) \<and>
   (filter recognised (markdown_tags lib markdown_text) \<noteq> [] \<and>
    markdown_tags lib other_text = markdown_tags lib markdown_text \<longrightarrow>
      get_pdf_elements lib other_text dest travel_dates =
        get_pdf_elements lib markdown_text dest travel_dates)"
proof -
  let ?ok = "markup_parses lib"
  have a: "get_pdf_elements lib markdown_text dest travel_dates =
           Inr (header dest travel_dates @
                concat (map line_flowables (nonblank_lines markdown_text)) @ footer)"
    if "filter recognised (markdown_tags lib markdown_text) = []"
      and f: "frame_parses ?ok dest travel_dates"
      and "list_all ?ok (nonblank_lines markdown_text)"
    using that
    by (simp add: get_pdf_elements_fallback nonblank_lines_def raw_lines_ok add_footer_ok[OF f])
  have b: "get_pdf_elements lib markdown_text dest travel_dates = Inl (ValueError line)"
    if "filter recognised (markdown_tags lib markdown_text) = []"
      and "frame_parses ?ok dest travel_dates"
      and "find (\<lambda>l. \<not> ?ok l) (nonblank_lines markdown_text) = Some line" for line
    using that
    by (simp add: get_pdf_elements_fallback nonblank_lines_def raw_lines_rejected)
  have c: "get_pdf_elements lib other_text dest travel_dates =
           get_pdf_elements lib markdown_text dest travel_dates"
    if r: "filter recognised (markdown_tags lib markdown_text) \<noteq> []"
      and e: "markdown_tags lib other_text = markdown_tags lib markdown_text"
  proof (cases "add_header ?ok dest travel_dates")
    case (Inl err)
    then show ?thesis by (simp add: get_pdf_elements_def)
  next
    case (Inr els0)
    let ?found = "find_all [py ''h1'', py ''h2'', py ''h3'', py ''p'', py ''ul'', py ''li'']
                    (markdown_tags lib markdown_text)"
    show ?thesis
    proof (cases "process_tags ?ok ?found els0")
      case (Inl err)
      with Inr e show ?thesis by (simp add: get_pdf_elements_def)
    next
      case inr: (Inr els1)
      from r have pos: "length (filter recognised ?found) > 0"
        by (simp only: recognised_find_all) simp
      from Inr have l0: "length els0 = 4"
        by (auto simp: add_header_def new_paragraph_def split: if_splits)
      from process_tags_length[OF inr] l0 pos have "\<not> length els1 \<le> 4"
        by linarith
      with Inr inr e show ?thesis by (simp add: get_pdf_elements_def)
    qed
  qed
  from a b c show ?thesis
    by (simp add: paragraphs_line_flowables)
qed

theorem fallback_only_without_blocks_witness:
  "filter recognised (markdown_tags example_lib rule_md) = [] \<and>
   frame_parses (markup_parses example_lib) (py ''Goa'') (py ''May'') \<and>
   list_all (markup_parses example_lib) (nonblank_lines rule_md) \<and>
   get_pdf_elements example_lib rule_md (py ''Goa'') (py ''May'') =
     Inr (header (py ''Goa'') (py ''May'') @ [Paragraph (py ''---'') Normal, Spacer 1 5] @ footer) \<and>
   filter recognised (markdown_tags example_lib markup_md) = [] \<and>
   find (\<lambda>l. \<not> markup_parses example_lib l) (nonblank_lines markup_md) =
     Some (py ''#### a <b> c'') \<and>
   get_pdf_elements example_lib markup_md (py ''Goa'') (py ''May'') =
     Inl (ValueError (py ''#### a <b> c'')) \<and>
   filter recognised (markdown_tags example_lib short_md) \<noteq> [] \<and>
   markdown_tags example_lib setext_md = markdown_tags example_lib short_md \<and>
   get_pdf_elements example_lib setext_md (py ''Goa'') (py ''May'') =
     get_pdf_elements example_lib short_md (py ''Goa'') (py ''May'')"
proof -
  have a: "filter recognised (markdown_tags example_lib rule_md) = []"
    "filter recognised (markdown_tags example_lib markup_md) = []"
    by (simp_all add: example_defs recognised_def py_def)
  have b: "frame_parses (markup_parses example_lib) (py ''Goa'') (py ''May'')"
    by (simp add: frame_parses_def example_defs footer_text_def py_def)
  have c: "list_all (markup_parses example_lib) (nonblank_lines rule_md)"
    "nonblank_lines rule_md = [py ''---'']"
    by (simp_all add: nonblank_lines_def example_defs strip_def py_isspace_def py_def)
  have d: "find (\<lambda>l. \<not> markup_parses example_lib l) (nonblank_lines markup_md) =
             Some (py ''#### a <b> c'')"
    by (simp add: nonblank_lines_def example_defs strip_def py_isspace_def py_def)
  have e: "filter recognised (markdown_tags example_lib short_md) \<noteq> []"
    "markdown_tags example_lib setext_md = markdown_tags example_lib short_md"
    by (simp_all add: example_defs recognised_def py_def)
  note t1 = fallback_only_without_blocks[of example_lib rule_md "py ''Goa''" "py ''May''"]
  note t2 = fallback_only_without_blocks[of example_lib markup_md "py ''Goa''" "py ''May''"]
  note t3 = fallback_only_without_blocks[of example_lib short_md "py ''Goa''" "py ''May''"
      setext_md]
  from t1 a(1) b c(1)
  have "get_pdf_elements example_lib rule_md (py ''Goa'') (py ''May'') =
     Inr (header (py ''Goa'') (py ''May'') @
          concat (map line_flowables (nonblank_lines rule_md)) @ footer)"
    by blast
  then have r1: "get_pdf_elements example_lib rule_md (py ''Goa'') (py ''May'') =
     Inr (header (py ''Goa'') (py ''May'') @ [Paragraph (py ''---'') Normal, Spacer 1 5] @ footer)"
    by (simp only: c(2)) (simp add: line_flowables_def)
  from t2 a(2) b d
  have r2: "get_pdf_elements example_lib markup_md (py ''Goa'') (py ''May'') =
     Inl (ValueError (py ''#### a <b> c''))"
    by blast
  from t3 e
  have r3: "get_pdf_elements example_lib setext_md (py ''Goa'') (py ''May'') =
     get_pdf_elements example_lib short_md (py ''Goa'') (py ''May'')"
    by blast
  show ?thesis
    by (intro conjI; fact)
qed

text \<open>
  C1 as stated fails twice. A document of two blocks (a heading and a paragraph of two
  lines) is not rendered line by line: it gives the two parsed blocks, not three line
  paragraphs. And with no block at all, a line of two spaces is not empty, yet gets no
  paragraph.
\<close>

theorem fallback_threshold_counterexample:
  "length (filter recognised (markdown_tags example_lib short_md)) \<le> 4 \<and>
   length (nonempty_lines short_md) = 3 \<and>
   get_pdf_elements example_lib short_md (py ''Goa'') (py ''May'') =
     Inr (header (py ''Goa'') (py ''May'') @
          [Paragraph (py ''Title'') Heading1, Spacer 1 10,
           Paragraph (py ''line one'' @ [10] @ py ''line two'') Normal, Spacer 1 5] @ footer) \<and>
   get_pdf_elements example_lib short_md (py ''Goa'') (py ''May'') \<noteq>
     Inr (header (py ''Goa'') (py ''May'') @
          concat (map line_flowables (nonempty_lines short_md)) @ footer) \<and>
   length (filter recognised (markdown_tags example_lib (py ''  ''))) \<le> 4 \<and>
   nonempty_lines (py ''  '') = [py ''  ''] \<and>
   get_pdf_elements example_lib (py ''  '') (py ''Goa'') (py ''May'') =
     Inr (header (py ''Goa'') (py ''May'') @ footer)"
  by (simp add: example_defs render_defs recognised_def nonempty_lines_def line_flowables_def)

text \<open>
  C3, as amended. For the markdown \<open># Paris Trip\n## Day 1\n- Visit the Louvre\n- Eat
  croissants\<close>, parsed into its \<open>h1\<close>, \<open>h2\<close>, \<open>ul\<close> and two \<open>li\<close> tags, and texts
  that reportlab parses, the renderer builds the two header blocks, then exactly the title
  block, the section block and the two bullet blocks (each heading followed by its
  spacer), and the footer last.
\<close>

theorem paris_trip_blocks:
  assumes "markdown_tags lib paris_md = paris_soup"
    and "markup_parses lib (py ''Travel Itinerary to '' @ dest)"
    and "markup_parses lib (py ''Travel Dates: '' @ travel_dates)"
    and "markup_parses lib (py ''Paris Trip'')"
    and "markup_parses lib (py ''Day 1'')"
    and "markup_parses lib ([8226, 32] @ py ''Visit the Louvre'')"
    and "markup_parses lib ([8226, 32] @ py ''Eat croissants'')"
    and "markup_parses lib (py ''Generated by GlobeTrek - Your AI Travel Companion'')"
  shows "get_pdf_elements lib paris_md dest travel_dates =
     Inr [Paragraph (py ''Travel Itinerary to '' @ dest) Title, Spacer 1 20,
          Paragraph (py ''Travel Dates: '' @ travel_dates) Heading2, Spacer 1 30,
          Paragraph (py ''Paris Trip'') Heading1, Spacer 1 10,
          Paragraph (py ''Day 1'') SectionStyle, Spacer 1 10,
          Paragraph ([8226, 32] @ py ''Visit the Louvre'') BulletStyle,
          Paragraph ([8226, 32] @ py ''Eat croissants'') BulletStyle,
          Spacer 1 50,
          Paragraph (py ''Generated by GlobeTrek - Your AI Travel Companion'') Footer]"
  using assms
  by (simp add: get_pdf_elements_def paris_soup_def find_all_def add_header_def add_footer_def
      new_paragraph_def footer_text_def bullet_def)

theorem paris_trip_blocks_witness:
  "markdown_tags example_lib paris_md = paris_soup \<and>
   markup_parses example_lib (py ''Travel Itinerary to '' @ py ''Paris'') \<and>
   markup_parses example_lib (py ''Travel Dates: '' @ py ''May 01, 2025 to May 05, 2025'') \<and>
   markup_parses example_lib (py ''Paris Trip'') \<and>
   markup_parses example_lib (py ''Day 1'') \<and>
   markup_parses example_lib ([8226, 32] @ py ''Visit the Louvre'') \<and>
   markup_parses example_lib ([8226, 32] @ py ''Eat croissants'') \<and>
   markup_parses example_lib (py ''Generated by GlobeTrek - Your AI Travel Companion'') \<and>
   get_pdf_elements example_lib paris_md (py ''Paris'') (py ''May 01, 2025 to May 05, 2025'') =
     Inr [Paragraph (py ''Travel Itinerary to Paris'') Title, Spacer 1 20,
          Paragraph (py ''Travel Dates: May 01, 2025 to May 05, 2025'') Heading2, Spacer 1 30,
          Paragraph (py ''Paris Trip'') Heading1, Spacer 1 10,
          Paragraph (py ''Day 1'') SectionStyle, Spacer 1 10,
          Paragraph ([8226, 32] @ py ''Visit the Louvre'') BulletStyle,
          Paragraph ([8226, 32] @ py ''Eat croissants'') BulletStyle,
          Spacer 1 50,
          Paragraph (py ''Generated by GlobeTrek - Your AI Travel Companion'') Footer]"
proof -
  have a: "markdown_tags example_lib paris_md = paris_soup"
    by (simp add: example_lib_def example_tags_def)
  have b: "markup_parses example_lib (py ''Travel Itinerary to '' @ py ''Paris'')"
    "markup_parses example_lib (py ''Travel Dates: '' @ py ''May 01, 2025 to May 05, 2025'')"
    "markup_parses example_lib (py ''Paris Trip'')"
    "markup_parses example_lib (py ''Day 1'')"
    "markup_parses example_lib ([8226, 32] @ py ''Visit the Louvre'')"
    "markup_parses example_lib ([8226, 32] @ py ''Eat croissants'')"
    "markup_parses example_lib (py ''Generated by GlobeTrek - Your AI Travel Companion'')"
    by (simp_all add: example_lib_def plain_markup_def py_def)
  from a b paris_trip_blocks[OF a b] show ?thesis
    by (simp add: py_def)
qed

text \<open>
  C3 as stated fails: the blocks of the rendered example are not the four and the footer
  alone, the two header blocks come first.
\<close>

theorem paris_trip_blocks_counterexample:
  "paragraphs (get_pdf_elements example_lib paris_md (py ''Paris'')
      (py ''May 01, 2025 to May 05, 2025'')) \<noteq>
     Inr [Paragraph (py ''Paris Trip'') Heading1,
          Paragraph (py ''Day 1'') SectionStyle,
          Paragraph ([8226, 32] @ py ''Visit the Louvre'') BulletStyle,
          Paragraph ([8226, 32] @ py ''Eat croissants'') BulletStyle,
          Paragraph (py ''Generated by GlobeTrek - Your AI Travel Companion'') Footer]"
  by (simp add: example_defs render_defs paragraphs_def is_paragraph_def)

text \<open>
  C4, as amended. For every markdown input whose parse has at least one recognised tag
  (\<open>h1\<close>, \<open>h2\<close>, \<open>h3\<close>, \<open>p\<close>, \<open>li\<close>), with header and footer built and every
  block's text parsed by reportlab, the paragraphs of the rendered document are the two
  of the header, then exactly one block per recognised tag, in document order, then the
  footer; the first block text reportlab does not parse ends the operation with
  \<open>ValueError\<close>. For every input, taking the \<open>ul\<close> and \<open>ol\<close> wrapper tags out of the
  parse changes nothing: they produce no flowable.
\<close>

theorem one_block_per_recognised_tag:
  "(filter recognised (markdown_tags lib markdown_text) \<noteq> [] \<and>
    frame_parses (markup_parses lib) dest travel_dates \<and>
    list_all (\<lambda>t. markup_parses lib (block_text t))
      (filter recognised (markdown_tags lib markdown_text)) \<longrightarrow>
      paragraphs (get_pdf_elements lib markdown_text dest travel_dates) =
        Inr (filter is_paragraph (header dest travel_dates) @
             map block_of (filter recognised (markdown_tags lib markdown_text)) @
             filter is_paragraph footer)) \<and>
   (frame_parses (markup_parses lib) dest travel_dates \<longrightarrow>
      (\<forall>t. find (\<lambda>t. \<not> markup_parses lib (block_text t))
             (filter recognised (markdown_tags lib markdown_text)) = Some t \<longrightarrow>
           get_pdf_elements lib markdown_text dest travel_dates =
             Inl (ValueError (block_text t)))) \<and>
   get_pdf_elements
     (lib\<lparr>markdown_tags := \<lambda>text. filter (\<lambda>t. \<not> list_wrapper t) (markdown_tags lib text)\<rparr>)
     markdown_text dest travel_dates =
     get_pdf_elements lib markdown_text dest travel_dates"
proof -
  let ?ok = "markup_parses lib"
  let ?tags = "markdown_tags lib markdown_text"
  let ?found = "find_all [py ''h1'', py ''h2'', py ''h3'', py ''p'', py ''ul'', py ''li''] ?tags"
  have a: "paragraphs (get_pdf_elements lib markdown_text dest travel_dates) =
        Inr (filter is_paragraph (header dest travel_dates) @
             map block_of (filter recognised ?tags) @ filter is_paragraph footer)"
    if r: "filter recognised ?tags \<noteq> []" and f: "frame_parses ?ok dest travel_dates"
      and ok: "list_all (\<lambda>t. ?ok (block_text t)) (filter recognised ?tags)"
  proof -
    from ok have "list_all (\<lambda>t. ?ok (block_text t)) (filter recognised ?found)"
      by (simp only: recognised_find_all)
    from process_tags_ok[OF this, of "header dest travel_dates"] obtain els where
      "process_tags ?ok ?found (header dest travel_dates) = Inr els"
      "filter is_paragraph els =
         filter is_paragraph (header dest travel_dates) @ map block_of (filter recognised ?found)"
      by blast
    then show ?thesis
      unfolding get_pdf_elements_structured[OF r f]
      by (simp add: add_footer_ok[OF f] paragraphs_def recognised_find_all
          del: py_names)
  qed
  have b: "get_pdf_elements lib markdown_text dest travel_dates = Inl (ValueError (block_text t))"
    if f: "frame_parses ?ok dest travel_dates"
      and bad: "find (\<lambda>t. \<not> ?ok (block_text t)) (filter recognised ?tags) = Some t" for t
  proof -
    from bad have r: "filter recognised ?tags \<noteq> []" by auto
    from bad have "find (\<lambda>t. \<not> ?ok (block_text t)) (filter recognised ?found) = Some t"
      by (simp only: recognised_find_all)
    from process_tags_rejected[OF this] show ?thesis
      unfolding get_pdf_elements_structured[OF r f] by simp
  qed
  have c: "get_pdf_elements
     (lib\<lparr>markdown_tags := \<lambda>text. filter (\<lambda>t. \<not> list_wrapper t) (markdown_tags lib text)\<rparr>)
     markdown_text dest travel_dates =
     get_pdf_elements lib markdown_text dest travel_dates"
    by (simp add: get_pdf_elements_def find_all_without_wrappers del: py_names cong: if_cong)
  from a b c show ?thesis by blast
qed

theorem one_block_per_recognised_tag_witness:
  "filter recognised (markdown_tags example_lib paris_md) \<noteq> [] \<and>
   frame_parses (markup_parses example_lib) (py ''Paris'') (py ''May'') \<and>
   list_all (\<lambda>t. markup_parses example_lib (block_text t))
     (filter recognised (markdown_tags example_lib paris_md)) \<and>
   paragraphs (get_pdf_elements example_lib paris_md (py ''Paris'') (py ''May'')) =
     Inr [Paragraph (py ''Travel Itinerary to Paris'') Title,
          Paragraph (py ''Travel Dates: May'') Heading2,
          Paragraph (py ''Paris Trip'') Heading1,
          Paragraph (py ''Day 1'') SectionStyle,
          Paragraph ([8226, 32] @ py ''Visit the Louvre'') BulletStyle,
          Paragraph ([8226, 32] @ py ''Eat croissants'') BulletStyle,
          Paragraph (py ''Generated by GlobeTrek - Your AI Travel Companion'') Footer] \<and>
   find (\<lambda>t. \<not> markup_parses example_lib (block_text t))
     (filter recognised (markdown_tags example_lib tagged_md)) =
     Some \<lparr>tag_name = py ''p'', tag_text = py ''Use <b> tags'', tag_src = None\<rparr> \<and>
   get_pdf_elements example_lib tagged_md (py ''Paris'') (py ''May'') =
     Inl (ValueError (py ''Use <b> tags''))"
proof -
  have a: "filter recognised (markdown_tags example_lib paris_md) \<noteq> []"
    by (simp add: example_defs recognised_def frame_parses_def footer_text_def block_text_def
        block_of_def header_def footer_def is_paragraph_def bullet_def py_def)
  have b: "frame_parses (markup_parses example_lib) (py ''Paris'') (py ''May'')"
    by (simp add: example_defs recognised_def frame_parses_def footer_text_def block_text_def
        block_of_def header_def footer_def is_paragraph_def bullet_def py_def)
  have c: "list_all (\<lambda>t. markup_parses example_lib (block_text t))
     (filter recognised (markdown_tags example_lib paris_md))"
    by (simp add: example_defs recognised_def frame_parses_def footer_text_def block_text_def
        block_of_def header_def footer_def is_paragraph_def bullet_def py_def)
  have d: "find (\<lambda>t. \<not> markup_parses example_lib (block_text t))
     (filter recognised (markdown_tags example_lib tagged_md)) =
     Some \<lparr>tag_name = py ''p'', tag_text = py ''Use <b> tags'', tag_src = None\<rparr>"
    by (simp add: example_defs recognised_def frame_parses_def footer_text_def block_text_def
        block_of_def header_def footer_def is_paragraph_def bullet_def py_def)
  have e: "filter is_paragraph (header (py ''Paris'') (py ''May'')) @
           map block_of (filter recognised (markdown_tags example_lib paris_md)) @
           filter is_paragraph footer =
           [Paragraph (py ''Travel Itinerary to Paris'') Title,
            Paragraph (py ''Travel Dates: May'') Heading2,
            Paragraph (py ''Paris Trip'') Heading1,
            Paragraph (py ''Day 1'') SectionStyle,
            Paragraph ([8226, 32] @ py ''Visit the Louvre'') BulletStyle,
            Paragraph ([8226, 32] @ py ''Eat croissants'') BulletStyle,
            Paragraph (py ''Generated by GlobeTrek - Your AI Travel Companion'') Footer]"
    by (simp add: example_defs recognised_def frame_parses_def footer_text_def block_text_def
        block_of_def header_def footer_def is_paragraph_def bullet_def py_def)
  have f: "block_text \<lparr>tag_name = py ''p'', tag_text = py ''Use <b> tags'', tag_src = None\<rparr> =
           py ''Use <b> tags''"
    by (simp add: example_defs recognised_def frame_parses_def footer_text_def block_text_def
        block_of_def header_def footer_def is_paragraph_def bullet_def py_def)
  from a b c d
    one_block_per_recognised_tag[of example_lib paris_md "py ''Paris''" "py ''May''"]
    one_block_per_recognised_tag[of example_lib tagged_md "py ''Paris''" "py ''May''"]
  show ?thesis
    by (simp only: e f) simp
qed

text \<open>
  C4 as stated fails on a document that is a level-4 heading alone: it has no
  recognised tag, yet the fallback renders its line as a paragraph.
\<close>

theorem one_block_per_recognised_tag_counterexample:
  "paragraphs (get_pdf_elements example_lib notes_md (py ''Goa'') (py ''May'')) \<noteq>
     Inr (filter is_paragraph (header (py ''Goa'') (py ''May'')) @
          map block_of (filter recognised (markdown_tags example_lib notes_md)) @
          filter is_paragraph footer)"
  by (simp add: example_defs render_defs paragraphs_def is_paragraph_def recognised_def)

lemma process_tags_img_append:
  "process_tags_img parses fetch (xs @ ys) acc =
     (case process_tags_img parses fetch xs acc of
        (Inl e, w) \<Rightarrow> (Inl e, w)
      | (Inr els, w) \<Rightarrow> process_tags_img parses fetch ys (els, w))"
proof (induction xs arbitrary: acc)
  case Nil
  show ?case by (cases acc) simp
next
  case (Cons x xs)
  obtain els warned where acc: "acc = (els, warned)" by (cases acc)
  show ?case
    unfolding acc append_Cons process_tags_img.simps
    by (simp add: Cons.IH split: prod.splits sum.splits)
qed

lemma process_tags_img_warned:
  "fst (process_tags_img parses fetch ts (els, w1)) =
   fst (process_tags_img parses fetch ts (els, w2))"
proof (induction ts arbitrary: els w1 w2)
  case Nil
  show ?case by simp
next
  case (Cons t ts)
  show ?case
    by (auto simp: Cons.IH new_paragraph_def
        split: http_outcome.splits pil_outcome.splits intro: Cons.IH)
qed

lemma process_tags_img_failed:
  assumes "tag_name t = py ''img''" and "fetch_fails fetch t"
  shows "\<exists>w. process_tags_img parses fetch (t # ts) (els, warned) =
              process_tags_img parses fetch ts (els, w)"
  using assms
  by (auto simp: fetch_fails_def split: http_outcome.splits pil_outcome.splits)

lemma process_tags_img_length:
  "fst (process_tags_img parses fetch ts (els, w)) = Inr els' \<Longrightarrow>
   length els + length (filter (yields fetch) ts) \<le> length els'"
proof (induction ts arbitrary: els w)
  case Nil
  then show ?case by simp
next
  case (Cons t ts)
  from Cons.prems
  have "\<exists>els2 w2. fst (process_tags_img parses fetch ts (els2, w2)) = Inr els' \<and>
           length els + (if yields fetch t then 1 else 0) \<le> length els2"
    by (simp add: yields_def recognised_def fetch_fails_def new_paragraph_def
        split: if_splits http_outcome.splits pil_outcome.splits) fastforce+
  then obtain els2 w2 where
    r: "fst (process_tags_img parses fetch ts (els2, w2)) = Inr els'" and
    l: "length els + (if yields fetch t then 1 else 0) \<le> length els2"
    by blast
  from Cons.IH[OF r] l show ?case by (simp split: if_splits)
qed

lemma yields_find_all:
  "filter (yields fetch)
     (find_all [py ''h1'', py ''h2'', py ''h3'', py ''p'', py ''ul'', py ''li'', py ''img''] soup) =
   filter (yields fetch) soup"
  by (induction soup) (auto simp: find_all_def yields_def recognised_def)

lemma fst_get_pdf_elements_img:
  "fst (get_pdf_elements_img lib fetch md dest travel_dates) =
     and_then (add_header (markup_parses lib) dest travel_dates) (\<lambda>elements0.
     and_then
       (fst (process_tags_img (markup_parses lib) fetch
          (find_all [py ''h1'', py ''h2'', py ''h3'', py ''p'', py ''ul'', py ''li'', py ''img'']
             (markdown_tags lib md))
          (elements0, []))) (\<lambda>elements1.
     and_then
       (if length elements1 \<le> 4 then raw_lines (markup_parses lib) (split 10 md) elements1
        else Inr elements1)
       (add_footer (markup_parses lib))))"
  by (simp add: get_pdf_elements_img_def and_then_def split: sum.splits prod.splits)

text \<open>
  C5, as amended. Take an input whose parse holds an \<open>img\<close> tag whose fetch or decode
  fails and, besides it, a tag that yields a flowable. The image is skipped and the loop
  goes on: what the renderer comes to, the flowable list with the later images or the
  \<open>ValueError\<close> of a text reportlab does not parse, is what it comes to for an input
  whose parse is the same tag list without that tag.
\<close>

theorem failed_image_skipped:
  assumes "tag_name t = py ''img''" and "fetch_fails fetch t"
    and "markdown_tags lib with_image = xs @ t # ys"
    and "markdown_tags lib without_image = xs @ ys"
    and "\<exists>other \<in> set (xs @ ys). yields fetch other"
  shows "fst (get_pdf_elements_img lib fetch with_image dest travel_dates) =
         fst (get_pdf_elements_img lib fetch without_image dest travel_dates)"
proof (cases "add_header (markup_parses lib) dest travel_dates")
  case (Inl e)
  then show ?thesis by (simp add: fst_get_pdf_elements_img)
next
  case (Inr els0)
  let ?ok = "markup_parses lib"
  let ?names = "[py ''h1'', py ''h2'', py ''h3'', py ''p'', py ''ul'', py ''li'', py ''img'']"
  have l0: "length els0 = 4"
    using Inr by (auto simp: add_header_def new_paragraph_def split: if_splits)
  have found: "find_all ?names (xs @ t # ys) = find_all ?names xs @ t # find_all ?names ys"
    using assms(1) by (simp add: find_all_def)
  have found': "find_all ?names (xs @ ys) = find_all ?names xs @ find_all ?names ys"
    by (simp add: find_all_def)
  have same: "fst (process_tags_img ?ok fetch (find_all ?names (xs @ t # ys)) (els0, [])) =
              fst (process_tags_img ?ok fetch (find_all ?names (xs @ ys)) (els0, []))"
  proof (cases "process_tags_img ?ok fetch (find_all ?names xs) (els0, [])")
    case (Pair r w)
    show ?thesis
    proof (cases r)
      case (Inl e)
      with Pair show ?thesis
        unfolding found found' process_tags_img_append by simp
    next
      case (Inr els)
      from process_tags_img_failed[OF assms(1,2)] obtain w' where
        "process_tags_img ?ok fetch (t # find_all ?names ys) (els, w) =
           process_tags_img ?ok fetch (find_all ?names ys) (els, w')"
        by blast
      with Pair Inr show ?thesis
        unfolding found found' process_tags_img_append
        by (simp add: process_tags_img_warned[of ?ok fetch _ els w' w] del: process_tags_img.simps)
    qed
  qed
  have long: "\<not> length els1 \<le> 4"
    if "fst (process_tags_img ?ok fetch (find_all ?names (xs @ ys)) (els0, [])) = Inr els1"
    for els1
  proof -
    from assms(5) have "filter (yields fetch) (xs @ ys) \<noteq> []"
      by (auto simp: filter_empty_conv)
    then have "0 < length (filter (yields fetch) (find_all ?names (xs @ ys)))"
      by (simp only: yields_find_all) simp
    with process_tags_img_length[OF that] l0 show ?thesis by linarith
  qed
  show ?thesis
  proof (cases "fst (process_tags_img ?ok fetch (find_all ?names (xs @ ys)) (els0, []))")
    case (Inl e)
    with same Inr show ?thesis
      by (simp add: fst_get_pdf_elements_img assms(3,4) del: py_names)
  next
    case inr: (Inr els1)
    with same Inr long[OF inr] show ?thesis
      by (simp add: fst_get_pdf_elements_img assms(3,4) del: py_names)
  qed
qed

theorem failed_image_skipped_witness:
  "tag_name bad_img = py ''img'' \<and> fetch_fails flaky_fetch bad_img \<and>
   markdown_tags example_lib views_md = [views_p] @ bad_img # [good_img] \<and>
   markdown_tags example_lib one_view_md = [views_p] @ [good_img] \<and>
   (\<exists>other \<in> set ([views_p] @ [good_img]). yields flaky_fetch other) \<and>
   fst (get_pdf_elements_img example_lib flaky_fetch views_md (py ''Goa'') (py ''May'')) =
     Inr (header (py ''Goa'') (py ''May'') @
          [Paragraph (py ''See  and  here'') Normal, Spacer 1 5, Image 400 800 600] @ footer)"
proof -
  have a: "tag_name bad_img = py ''img''"
    by (simp add: bad_img_def)
  have b: "fetch_fails flaky_fetch bad_img"
    by (simp add: fetch_fails_def flaky_fetch_def bad_img_def py_def)
  have c: "markdown_tags example_lib views_md = [views_p] @ bad_img # [good_img]"
    "markdown_tags example_lib one_view_md = [views_p] @ [good_img]"
    by (simp_all add: example_defs py_def)
  have d: "\<exists>other \<in> set ([views_p] @ [good_img]). yields flaky_fetch other"
    by (simp add: yields_def recognised_def views_p_def)
  have e: "fst (get_pdf_elements_img example_lib flaky_fetch one_view_md (py ''Goa'') (py ''May'')) =
     Inr (header (py ''Goa'') (py ''May'') @
          [Paragraph (py ''See  and  here'') Normal, Spacer 1 5, Image 400 800 600] @ footer)"
    by (simp add: example_defs render_defs)
  from failed_image_skipped[OF a b c d, of "py ''Goa''" "py ''May''"] e
  have f: "fst (get_pdf_elements_img example_lib flaky_fetch views_md (py ''Goa'') (py ''May'')) =
     Inr (header (py ''Goa'') (py ''May'') @
          [Paragraph (py ''See  and  here'') Normal, Spacer 1 5, Image 400 800 600] @ footer)"
    by (simp only:)
  show ?thesis
    by (intro conjI; fact)
qed

text \<open>
  C5 as stated fails when the failed image is all the loop finds: the fallback then
  renders the raw lines, and the line of the image holds its markup, so the blocks are
  not those of the input without the image.
\<close>

theorem failed_image_skipped_counterexample:
  "tag_name bad_img = py ''img'' \<and> fetch_fails flaky_fetch bad_img \<and>
   markdown_tags example_lib notes_img_md =
     [\<lparr>tag_name = py ''h4'', tag_text = py ''Notes '', tag_src = None\<rparr>, bad_img] \<and>
   markdown_tags example_lib notes_gap_md =
     [\<lparr>tag_name = py ''h4'', tag_text = py ''Notes'', tag_src = None\<rparr>] \<and>
   fst (get_pdf_elements_img example_lib flaky_fetch notes_img_md (py ''Goa'') (py ''May'')) =
     Inr (header (py ''Goa'') (py ''May'') @
          [Paragraph (py ''#### Notes ![a](http://x/bad.png)'') Normal, Spacer 1 5] @ footer) \<and>
   fst (get_pdf_elements_img example_lib flaky_fetch notes_gap_md (py ''Goa'') (py ''May'')) =
     Inr (header (py ''Goa'') (py ''May'') @
          [Paragraph (py ''#### Notes '') Normal, Spacer 1 5] @ footer) \<and>
   fst (get_pdf_elements_img example_lib flaky_fetch notes_img_md (py ''Goa'') (py ''May'')) \<noteq>
   fst (get_pdf_elements_img example_lib flaky_fetch notes_gap_md (py ''Goa'') (py ''May''))"
  by (simp add: example_defs render_defs fetch_fails_def)

subsection \<open>The Image Extractor\<close>

lemma show_images_Cons:
  "show_images e ((a, u) # ms) t fx =
     (if st_image e u (caption_of a)
      then show_images e ms (replace_all (group0 (a, u)) t) (fx\<lparr>images := images fx @ [(u, caption_of a)]\<rparr>)
      else show_images e ms t fx)"
  by (simp add: caption_of_def Let_def)

lemma py_lits [simp]:
  "py ''!['' = [33, 91]" "py '']('' = [93, 40]" "py '')'' = [41]"
  by (simp_all add: py_def)

lemma lazy_then_found:
  assumes "k t = Some r" and "hd lit \<notin> set g" and "10 \<notin> set g" and "lit \<noteq> []"
  shows "lazy_then lit k (g @ lit @ t) = Some (g, r)"
  using assms
proof (induction g)
  case Nil
  then obtain l ls where lit: "lit = l # ls" by (cases lit) auto
  have "prefix lit (l # ls @ t)" and "drop (length lit) (l # ls @ t) = t"
    by (simp_all add: lit)
  with Nil show ?case by (simp add: lit)
next
  case (Cons c g)
  then have "\<not> prefix lit (c # g @ lit @ t)"
    by (cases lit) (auto simp: prefix_def)
  with Cons show ?case by simp
qed

lemma match_image_at_ref:
  assumes "93 \<notin> set a" "10 \<notin> set a" "41 \<notin> set u" "10 \<notin> set u"
  shows "match_image_at (group0 (a, u) @ rest) = Some (a, u, rest)"
proof -
  have 1: "lazy_then [41] Some (u @ [41] @ rest) = Some (u, rest)"
    using assms by (intro lazy_then_found) auto
  have 2: "lazy_then [93, 40] (lazy_then [41] Some) (a @ [93, 40] @ (u @ [41] @ rest)) = Some (a, (u, rest))"
    using assms 1 by (intro lazy_then_found) auto
  then show ?thesis
    by (simp add: match_image_at_def group0_def)
qed

lemma no_image_head_tl: "no_image_head (c # s) \<Longrightarrow> no_image_head s"
  by (cases s) simp_all

lemma no_image_head_append:
  assumes "no_image_head x" and "no_image_head y"
    and "x = [] \<or> y = [] \<or> last x \<noteq> 33 \<or> hd y \<noteq> 91"
  shows "no_image_head (x @ y)"
  using assms
proof (induction x)
  case Nil
  then show ?case by simp
next
  case outer: (Cons c x)
  show ?case
  proof (cases x)
    case Nil
    with outer.prems show ?thesis by (cases y) auto
  next
    case (Cons d s)
    with outer.IH outer.prems show ?thesis by auto
  qed
qed

lemma no_image_head_short: "length y \<le> 1 \<Longrightarrow> no_image_head y"
  by (cases y rule: no_image_head.cases) simp_all

lemma no_image_head_before:
  assumes "no_image_head s" and "rest = [] \<or> hd rest \<noteq> 91"
  shows "no_image_head (s @ take 1 rest)"
proof (rule no_image_head_append[OF assms(1)])
  show "no_image_head (take 1 rest)" by (rule no_image_head_short) simp
  from assms(2) show "s = [] \<or> take 1 rest = [] \<or> last s \<noteq> 33 \<or> hd (take 1 rest) \<noteq> 91"
    by (cases rest) auto
qed

lemma no_image_head_no_prefix:
  assumes "no_image_head ((c # s) @ take 1 rest)"
  shows "\<not> prefix (33 # 91 # m) (c # s @ rest)"
  using assms by (cases s; cases rest) auto

lemma match_image_at_quiet:
  "no_image_head ((c # s) @ take 1 rest) \<Longrightarrow> match_image_at (c # s @ rest) = None"
  using no_image_head_no_prefix[of c s rest "[]"] by (auto simp: match_image_at_def)

lemma image_matches_plain:
  "no_image_head (s @ take 1 rest) \<Longrightarrow> image_matches (s @ rest) = image_matches rest"
proof (induction s)
  case Nil
  show ?case by simp
next
  case (Cons c s)
  from Cons.prems have "no_image_head (s @ take 1 rest)"
    by (simp add: no_image_head_tl)
  with Cons.IH match_image_at_quiet[OF Cons.prems] show ?case by simp
qed

lemma ref_tail_quiet:
  assumes "no_image_head a" and "no_image_head u" and "length y \<le> 1"
  shows "no_image_head ((91 # a @ [93, 40] @ u @ [41]) @ y)"
proof -
  have 1: "no_image_head ([41] @ y)"
    using assms(3) by (cases y) simp_all
  have 2: "no_image_head (u @ [41] @ y)"
    by (rule no_image_head_append[OF assms(2) 1]) simp
  have 3: "no_image_head ([93, 40] @ u @ [41] @ y)"
    by (rule no_image_head_append[OF _ 2]) simp_all
  have 4: "no_image_head (a @ [93, 40] @ u @ [41] @ y)"
    by (rule no_image_head_append[OF assms(1) 3]) simp
  have "no_image_head ([91] @ a @ [93, 40] @ u @ [41] @ y)"
    by (rule no_image_head_append[OF _ 4]) simp_all
  then show ?thesis by simp
qed

lemma no_image_head_appendD1: "no_image_head (x @ y) \<Longrightarrow> no_image_head x"
  by (induction x rule: no_image_head.induct) simp_all

lemma no_image_head_appendD2: "no_image_head (x @ y) \<Longrightarrow> no_image_head y"
  by (induction x) (auto dest: no_image_head_tl)

lemma simple_tl: "simple (p # ps) \<Longrightarrow> simple ps"
  by (cases p) (auto simp: simple_def dest: no_image_head_appendD2)

lemma plain_text_filter: "plain_text (filter (\<lambda>p. p \<noteq> Ref a u) ps) = plain_text ps"
  by (induction ps rule: plain_text.induct) simp_all

lemma simple_filter: "simple ps \<Longrightarrow> simple (filter (\<lambda>p. p \<noteq> Ref a u) ps)"
  by (simp add: simple_def plain_text_filter list_all_iff)

lemma hd_flatten_plain:
  "flatten ps \<noteq> [] \<Longrightarrow> hd (flatten ps) = 91 \<Longrightarrow> \<exists>r. plain_text ps = 91 # r"
proof (induction ps)
  case Nil
  then show ?case by (simp add: flatten_def)
next
  case (Cons p ps)
  show ?case
  proof (cases p)
    case (Plain s)
    show ?thesis
    proof (cases s)
      case Nil
      with Cons Plain show ?thesis by (simp add: flatten_def)
    next
      case (Cons c cs)
      with Cons.prems Plain show ?thesis by (simp add: flatten_def)
    qed
  next
    case (Ref a u)
    with Cons.prems show ?thesis by (simp add: flatten_def group0_def)
  qed
qed

lemma plain_before:
  assumes "no_image_head (s @ plain_text ps)"
  shows "no_image_head (s @ take 1 (flatten ps))"
proof (cases "flatten ps = [] \<or> hd (flatten ps) \<noteq> 91")
  case True
  from assms have "no_image_head s" by (rule no_image_head_appendD1)
  from no_image_head_before[OF this True] show ?thesis .
next
  case False
  with hd_flatten_plain[of ps] obtain r where r: "plain_text ps = 91 # r" by blast
  from False have "take 1 (flatten ps) = [91]" by (cases "flatten ps") auto
  moreover from assms r have "no_image_head ((s @ [91]) @ r)" by simp
  then have "no_image_head (s @ [91])" by (rule no_image_head_appendD1)
  ultimately show ?thesis by simp
qed

lemma group0_Cons: "group0 (a, u) @ rest = 33 # (91 # a @ [93, 40] @ u @ [41] @ rest)"
  by (simp add: group0_def)

lemma image_matches_ref:
  assumes "93 \<notin> set a" "10 \<notin> set a" "41 \<notin> set u" "10 \<notin> set u"
  shows "image_matches (group0 (a, u) @ rest) = (a, u) # image_matches rest"
proof -
  have "image_matches (33 # (91 # a @ [93, 40] @ u @ [41] @ rest)) =
        (case match_image_at (33 # (91 # a @ [93, 40] @ u @ [41] @ rest)) of
           Some (alt, url, rest) \<Rightarrow> (alt, url) # image_matches rest
         | None \<Rightarrow> image_matches (91 # a @ [93, 40] @ u @ [41] @ rest))"
    by (rule image_matches.simps(2))
  then show ?thesis
    using match_image_at_ref[OF assms, of rest] by (simp add: group0_Cons)
qed

lemma image_matches_flatten:
  "simple ps \<Longrightarrow> image_matches (flatten ps) = refs_of ps"
proof (induction ps)
  case Nil
  show ?case by (simp add: flatten_def)
next
  case (Cons p ps)
  from Cons.prems have tl: "simple ps" by (rule simple_tl)
  show ?case
  proof (cases p)
    case (Plain s)
    from Cons.prems Plain have "no_image_head (s @ plain_text ps)"
      by (simp add: simple_def)
    then have "no_image_head (s @ take 1 (flatten ps))"
      by (rule plain_before)
    from image_matches_plain[OF this] Cons.IH[OF tl] Plain show ?thesis
      by (simp add: flatten_def)
  next
    case (Ref a u)
    with Cons.prems have "proper_ref (Ref a u)" by (simp add: simple_def)
    with Cons.IH[OF tl] Ref show ?thesis
      by (simp add: flatten_def image_matches_ref)
  qed
qed

lemma replace_all_Nil: "replace_all old [] = []"
  by (simp add: replace_all.simps)

lemma replace_all_skip:
  "\<not> prefix old (c # cs) \<Longrightarrow> replace_all old (c # cs) = c # replace_all old cs"
  by (subst replace_all.simps) auto

lemma replace_all_hit:
  assumes "old \<noteq> []"
  shows "replace_all old (old @ rest) = replace_all old rest"
proof -
  from assms obtain c cs where e: "old @ rest = c # cs"
    by (cases old) auto
  have "replace_all old (c # cs) =
          (if prefix old (c # cs) then replace_all old (drop (length old) (c # cs))
           else c # replace_all old cs)"
    using assms by (subst replace_all.simps) simp
  then show ?thesis
    unfolding e[symmetric] by simp
qed

lemma replace_all_plain:
  assumes "no_image_head (s @ take 1 rest)"
  shows "replace_all (33 # 91 # m) (s @ rest) = s @ replace_all (33 # 91 # m) rest"
  using assms
proof (induction s)
  case Nil
  show ?case by simp
next
  case (Cons c s)
  from Cons.prems have "no_image_head (s @ take 1 rest)"
    by (simp add: no_image_head_tl)
  with Cons.IH no_image_head_no_prefix[OF Cons.prems, of m] show ?case
    by (simp add: replace_all_skip)
qed

lemma prefix_separator:
  assumes "c \<notin> set a" and "c \<notin> set b" and "prefix (a @ c # x) (b @ c # y)"
  shows "a = b \<and> prefix x y"
  using assms
proof (induction a arbitrary: b)
  case Nil
  then show ?case by (cases b) auto
next
  case (Cons h a)
  then show ?case by (cases b) auto
qed

lemma prefix_group0:
  assumes "93 \<notin> set a" "93 \<notin> set b" "41 \<notin> set u" "41 \<notin> set v"
    and "prefix (group0 (a, u)) (group0 (b, v) @ rest)"
  shows "a = b \<and> u = v"
proof -
  from assms(5) have "prefix (a @ 93 # (40 # u @ [41])) (b @ 93 # (40 # v @ [41] @ rest))"
    by (simp add: group0_def)
  from prefix_separator[OF assms(1,2) this]
  have ab: "a = b" and "prefix (u @ 41 # []) (v @ 41 # rest)" by auto
  from prefix_separator[OF assms(3,4) this(2)] ab show ?thesis by simp
qed

lemma replace_all_other_ref:
  assumes "proper_ref (Ref a u)" "proper_ref (Ref b v)" "(b, v) \<noteq> (a, u)"
  shows "replace_all (group0 (a, u)) (group0 (b, v) @ rest) =
         group0 (b, v) @ replace_all (group0 (a, u)) rest"
proof -
  let ?r = "group0 (a, u)"
  let ?tail = "91 # b @ [93, 40] @ v @ [41]"
  have r: "?r = 33 # 91 # (a @ [93, 40] @ u @ [41])" by (simp add: group0_def)
  have "\<not> prefix ?r (group0 (b, v) @ rest)"
    using prefix_group0[of a b u v rest] assms by auto
  then have "replace_all ?r (33 # (?tail @ rest)) = 33 # replace_all ?r (?tail @ rest)"
    by (intro replace_all_skip) (simp add: group0_def)
  moreover have "no_image_head (?tail @ take 1 rest)"
    using assms(2) by (intro ref_tail_quiet) simp_all
  then have "replace_all ?r (?tail @ rest) = ?tail @ replace_all ?r rest"
    unfolding r by (rule replace_all_plain)
  ultimately show ?thesis by (simp add: group0_def)
qed

lemma replace_all_flatten:
  assumes "proper_ref (Ref a u)"
  shows "simple ps \<Longrightarrow>
         replace_all (group0 (a, u)) (flatten ps) = flatten (filter (\<lambda>p. p \<noteq> Ref a u) ps)"
proof (induction ps)
  case Nil
  show ?case by (simp add: flatten_def replace_all_Nil)
next
  case (Cons p ps)
  from Cons.prems have tl: "simple ps" by (rule simple_tl)
  from Cons.IH[OF tl]
  have IH: "replace_all (group0 (a, u)) (flatten ps) = flatten (filter (\<lambda>p. p \<noteq> Ref a u) ps)" .
  have r: "group0 (a, u) \<noteq> []" "hd (group0 (a, u)) = 33" by (simp_all add: group0_def)
  show ?case
  proof (cases p)
    case (Plain s)
    from Cons.prems Plain have "no_image_head (s @ plain_text ps)"
      by (simp add: simple_def)
    then have "no_image_head (s @ take 1 (flatten ps))"
      by (rule plain_before)
    from replace_all_plain[OF this, of "a @ [93, 40] @ u @ [41]"]
    have "replace_all (group0 (a, u)) (s @ flatten ps) =
          s @ replace_all (group0 (a, u)) (flatten ps)"
      by (simp add: group0_def)
    with IH Plain show ?thesis by (simp add: flatten_def)
  next
    case (Ref b v)
    show ?thesis
    proof (cases "(b, v) = (a, u)")
      case True
      with Ref IH r show ?thesis by (simp add: flatten_def replace_all_hit)
    next
      case False
      from Cons.prems Ref have "proper_ref (Ref b v)" by (simp add: simple_def)
      from replace_all_other_ref[OF assms this False, of "flatten ps"] IH Ref False
      show ?thesis by (auto simp add: flatten_def)
    qed
  qed
qed

lemma show_images_images:
  "images (snd (show_images e ms t fx)) =
     images fx @ [(u, caption_of a). (a, u) \<leftarrow> ms, st_image e u (caption_of a)]"
  by (induction ms arbitrary: t fx) (auto simp: show_images_Cons simp del: show_images.simps(2))

lemma show_images_simple:
  assumes "simple ps" and "list_all (\<lambda>(a, u). proper_ref (Ref a u)) ms"
  shows "fst (show_images e ms (flatten ps) fx) =
           flatten (filter (\<lambda>p. \<not> (displayed e p \<and> p \<in> (\<lambda>(a, u). Ref a u) ` set ms)) ps)"
  using assms
proof (induction ms arbitrary: ps fx)
  case Nil
  show ?case by simp
next
  case (Cons m ms)
  obtain a u where m: "m = (a, u)" by (cases m)
  from Cons.prems m have sa: "proper_ref (Ref a u)" and sms: "list_all (\<lambda>(a, u). proper_ref (Ref a u)) ms"
    by auto
  show ?case
  proof (cases "st_image e u (caption_of a)")
    case True
    let ?ps = "filter (\<lambda>p. p \<noteq> Ref a u) ps"
    have "simple ?ps"
      using Cons.prems(1) by (rule simple_filter)
    from Cons.IH[OF this sms]
    have "fst (show_images e ms (flatten ?ps) (fx\<lparr>images := images fx @ [(u, caption_of a)]\<rparr>)) =
          flatten (filter (\<lambda>p. \<not> (displayed e p \<and> p \<in> (\<lambda>(a, u). Ref a u) ` set ms)) ?ps)" .
    moreover have "filter (\<lambda>p. \<not> (displayed e p \<and> p \<in> (\<lambda>(a, u). Ref a u) ` set ms)) ?ps =
          filter (\<lambda>p. \<not> (displayed e p \<and> p \<in> (\<lambda>(a, u). Ref a u) ` set (m # ms))) ps"
      using True by (auto simp: m intro!: filter_cong)
    ultimately show ?thesis
      using True
      by (simp add: m show_images_Cons replace_all_flatten[OF sa Cons.prems(1)]
          del: show_images.simps(2))
  next
    case False
    have "filter (\<lambda>p. \<not> (displayed e p \<and> p \<in> (\<lambda>(a, u). Ref a u) ` set ms)) ps =
          filter (\<lambda>p. \<not> (displayed e p \<and> p \<in> (\<lambda>(a, u). Ref a u) ` set (m # ms))) ps"
      using False by (auto simp: m intro!: filter_cong)
    with Cons.IH[OF Cons.prems(1) sms, of fx] False show ?thesis
      by (simp add: m show_images_Cons del: show_images.simps(2))
  qed
qed

lemma refs_of_proper:
  "list_all proper_ref ps \<Longrightarrow> list_all (\<lambda>(a, u). proper_ref (Ref a u)) (refs_of ps)"
  by (induction ps rule: refs_of.induct) auto

lemma refs_of_simple:
  "simple ps \<Longrightarrow> list_all (\<lambda>(a, u). proper_ref (Ref a u)) (refs_of ps)"
  unfolding simple_def by (rule refs_of_proper) simp

lemma refs_of_mem: "Ref a u \<in> set ps \<Longrightarrow> (a, u) \<in> set (refs_of ps)"
  by (induction ps rule: refs_of.induct) auto

lemma displayed_filter:
  "filter (\<lambda>p. \<not> (displayed e p \<and> p \<in> (\<lambda>(a, u). Ref a u) ` set (refs_of ps))) ps =
   filter (\<lambda>p. \<not> displayed e p) ps"
proof (rule filter_cong[OF refl])
  fix p assume p: "p \<in> set ps"
  show "(\<not> (displayed e p \<and> p \<in> (\<lambda>(a, u). Ref a u) ` set (refs_of ps))) = (\<not> displayed e p)"
  proof (cases p)
    case (Plain s)
    then show ?thesis by simp
  next
    case (Ref a u)
    with p have "(a, u) \<in> set (refs_of ps)" by (simp add: refs_of_mem)
    then have "p \<in> (\<lambda>(a, u). Ref a u) ` set (refs_of ps)"
      unfolding Ref by (rule image_eqI[rotated]) simp
    then show ?thesis by simp
  qed
qed

text \<open>
  C2, as amended. For every simple text (its references proper, and no \<open>![\<close> in what is
  left without them) the extractor returns the text with exactly those references
  removed whose display succeeded. For every text with a reference, the images displayed
  are those of the references whose display succeeded, one each, in the order the
  references occur in the input, captioned with the alt text (or \<open>Travel Image\<close>).
\<close>

theorem simple_document_images_extracted:
  "(simple ps \<longrightarrow>
      fst (display_images_from_markdown e (flatten ps) dest fx) =
        flatten (filter (\<lambda>p. \<not> displayed e p) ps)) \<and>
   (image_matches markdown_text \<noteq> [] \<longrightarrow>
      images (snd (display_images_from_markdown e markdown_text dest fx)) =
        images fx @
        [(url, caption_of alt). (alt, url) \<leftarrow> image_matches markdown_text,
           st_image e url (caption_of alt)])"
proof -
  have "fst (display_images_from_markdown e (flatten ps) dest fx) =
        flatten (filter (\<lambda>p. \<not> displayed e p) ps)" if s: "simple ps"
    unfolding display_images_from_markdown_def Let_def image_matches_flatten[OF s]
    by (simp only: show_images_simple[OF s refs_of_simple[OF s]] displayed_filter)
  moreover have "images (snd (display_images_from_markdown e markdown_text dest fx)) =
        images fx @
        [(url, caption_of alt). (alt, url) \<leftarrow> image_matches markdown_text,
           st_image e url (caption_of alt)]" if "image_matches markdown_text \<noteq> []"
    using that by (simp add: display_images_from_markdown_def Let_def show_images_images)
  ultimately show ?thesis by blast
qed

theorem simple_document_images_extracted_witness:
  "simple guide_pieces \<and>
   fst (display_images_from_markdown online_env (flatten guide_pieces) None no_effects) =
     py ''[Paris](http://p.fr) wow! See  and ![](bad.png). Enjoy!'' \<and>
   image_matches (flatten guide_pieces) \<noteq> [] \<and>
   images (snd (display_images_from_markdown online_env (flatten guide_pieces) None no_effects)) =
     [(py ''http://x/e.png'', py ''Eiffel'')]"
proof -
  have a: "simple guide_pieces"
    by (simp add: simple_def guide_pieces_def py_def)
  have b: "image_matches (flatten guide_pieces) =
             [(py ''Eiffel'', py ''http://x/e.png''), ([], py ''bad.png'')]"
    by (simp add: image_matches_flatten[OF a]) (simp add: guide_pieces_def)
  from a b
    simple_document_images_extracted[of guide_pieces online_env None no_effects
      "flatten guide_pieces"]
  show ?thesis
    by (simp add: guide_pieces_def online_env_def no_effects_def flatten_def group0_def
        caption_of_def py_def)
qed

text \<open>
  C2 as stated fails twice. A reference whose display raises is neither removed nor
  displayed. And with every display succeeding, the text \<open>!![a](b)[x](c)\<close> has the one
  reference \<open>![a](b)\<close>; removing it leaves \<open>![x](c)\<close>, a valid reference, in the
  text returned.
\<close>

theorem images_extracted_counterexample:
  "image_matches (py ''![a](b)'') = [(py ''a'', py ''b'')] \<and>
   display_images_from_markdown offline_env (py ''![a](b)'') None no_effects =
     (py ''![a](b)'', no_effects) \<and>
   fst (display_images_from_markdown online_env (py ''!![a](b)[x](c)'') None no_effects) =
     py ''![x](c)'' \<and>
   image_matches (py ''![x](c)'') = [(py ''x'', py ''c'')]"
  by code_simp

lemma show_results_searches: "searches (show_results e d rs fx) = searches fx"
  by (induction e d rs fx rule: show_results.induct) (simp_all add: Let_def split: option.splits)

lemma show_results_images:
  "length (images (show_results e d rs fx)) \<le> length (images fx) + length rs"
proof (induction rs arbitrary: fx)
  case Nil
  show ?case by simp
next
  case (Cons r rs)
  obtain i img_result where r: "r = (i, img_result)" by (cases r)
  let ?caption = "d @ py '' attraction '' @ str_int (int i + 1)"
  show ?case
  proof (cases img_result)
    case None
    with Cons.IH[of fx] show ?thesis by (simp add: r)
  next
    case (Some img_url)
    show ?thesis
    proof (cases "img_url \<noteq> [] \<and> st_image e img_url ?caption")
      case True
      with Cons.IH[of "fx\<lparr>images := images fx @ [(img_url, ?caption)]\<rparr>"] Some
      show ?thesis by (simp add: r Let_def)
    next
      case False
      with Cons.IH[of fx] Some show ?thesis by (auto simp: r Let_def)
    qed
  qed
qed

lemma external_search_searches:
  "searches (external_search e d fx) = searches fx @ [d @ py '' travel attractions'']"
  by (simp add: external_search_def Let_def show_results_searches
      split: search_outcome.splits option.splits)

lemma external_search_images:
  "length (images (external_search e d fx)) \<le> length (images fx) + 3"
proof (cases "requests_get e (d @ py '' travel attractions'')")
  case (Search_raised msg)
  then show ?thesis by (simp add: external_search_def Let_def)
next
  case (Search_json results)
  show ?thesis
  proof (cases results)
    case None
    with Search_json show ?thesis by (simp add: external_search_def Let_def)
  next
    case (Some rs)
    let ?fx = "fx\<lparr>searches := searches fx @ [d @ py '' travel attractions'']\<rparr>"
    have "length (images (show_results e d (zip [0..<length (take 3 rs)] (take 3 rs)) ?fx))
            \<le> length (images ?fx) + length (zip [0..<length (take 3 rs)] (take 3 rs))"
      by (rule show_results_images)
    with Search_json Some show ?thesis by (simp add: external_search_def Let_def)
  qed
qed

lemma hello_no_refs: "image_matches (py ''Hello'') = []"
  by (simp add: py_def match_image_at_def)

text \<open>
  C6, as amended. For every text without an image reference, every non-empty destination
  and a configured \<open>SERPAPI_API_KEY\<close>, the extractor sends exactly one image search,
  with the query \<open><destination> travel attractions\<close>, displays at most three images
  and returns the text as it came.
\<close>

theorem one_search_without_references:
  assumes "image_matches markdown_text = []" and "d \<noteq> []" and "truthy (serpapi_api_key e)"
  shows "fst (display_images_from_markdown e markdown_text (Some d) fx) = markdown_text \<and>
         searches (snd (display_images_from_markdown e markdown_text (Some d) fx)) =
           searches fx @ [d @ py '' travel attractions''] \<and>
         length (images (snd (display_images_from_markdown e markdown_text (Some d) fx))) \<le>
           length (images fx) + 3"
  using assms
  by (simp add: display_images_from_markdown_def Let_def truthy_def external_search_searches
      external_search_images)

theorem one_search_without_references_witness:
  "image_matches (py ''Hello'') = [] \<and> py ''Paris'' \<noteq> [] \<and>
   truthy (serpapi_api_key online_env) \<and>
   fst (display_images_from_markdown online_env (py ''Hello'') (Some (py ''Paris'')) no_effects) =
     py ''Hello'' \<and>
   searches (snd (display_images_from_markdown online_env (py ''Hello'') (Some (py ''Paris''))
     no_effects)) = [py ''Paris travel attractions''] \<and>
   length (images (snd (display_images_from_markdown online_env (py ''Hello'')
     (Some (py ''Paris'')) no_effects))) \<le> 3"
proof -
  have a: "image_matches (py ''Hello'') = []" by (rule hello_no_refs)
  have b: "py ''Paris'' \<noteq> []" by (simp add: py_def)
  have c: "truthy (serpapi_api_key online_env)" by (simp add: online_env_def truthy_def py_def)
  from a b c one_search_without_references[OF a b c, of no_effects]
  show ?thesis by (simp add: no_effects_def py_def)
qed

text \<open>
  C6 as stated fails when the API key is not configured: no search is sent.
\<close>

theorem one_search_counterexample:
  "image_matches (py ''Hello'') = [] \<and> py ''Paris'' \<noteq> [] \<and>
   searches (snd (display_images_from_markdown keyless_env (py ''Hello'') (Some (py ''Paris''))
     no_effects)) = []"
proof -
  have "searches (snd (display_images_from_markdown keyless_env (py ''Hello'') (Some (py ''Paris''))
     no_effects)) = []"
    by (simp add: hello_no_refs display_images_from_markdown_def Let_def keyless_env_def
        online_env_def truthy_def no_effects_def)
  then show ?thesis
    by (simp add: hello_no_refs) (simp add: py_def)
qed

subsection \<open>The flight-search tools\<close>

text \<open>
  C7 does not hold of main.py. \<open>get_airport_info\<close> reads
  \<open>reference_data.locations.by_id\<close>, which a client of the SDK does not have: with
  credentials it raises \<open>AttributeError\<close> for every airport code, and \<open>except
  ResponseError\<close> does not catch that. The rest is as the claim says: \<open>search_airports\<close>
  and \<open>search_flights\<close> return the response data, or the error object of a
  \<open>ResponseError\<close>, and without a credential all three return the fixed payload.
\<close>

theorem get_airport_info_raises_AttributeError:
  "(client self = Some c \<and> locations_by_id c = None \<longrightarrow>
      get_airport_info self airport_code =
        Raise (AttributeError
          ([39] @ py ''Locations'' @ [39] @ py '' object has no attribute '' @
           [39] @ py ''by_id'' @ [39]))) \<and>
   (client self = Some c \<longrightarrow>
      (\<forall>d. locations_get c keyword = Api_data d \<longrightarrow>
           search_airports self keyword = Return (Data d)) \<and>
      (\<forall>e. locations_get c keyword = Api_ResponseError e \<longrightarrow>
           search_airports self keyword = Return (Error_dict (Some e))) \<and>
      (\<forall>d. flight_offers_search_get c
             \<lparr>originLocationCode = orig, destinationLocationCode = dest,
              departureDate = departure_date,
              returnDate = (if truthy return_date then return_date else None),
              adults = n_adults\<rparr> = Api_data d \<longrightarrow>
           search_flights self orig dest departure_date return_date n_adults =
             Return (Data d)) \<and>
      (\<forall>e. flight_offers_search_get c
             \<lparr>originLocationCode = orig, destinationLocationCode = dest,
              departureDate = departure_date,
              returnDate = (if truthy return_date then return_date else None),
              adults = n_adults\<rparr> = Api_ResponseError e \<longrightarrow>
           search_flights self orig dest departure_date return_date n_adults =
             Return (Error_dict (Some e)))) \<and>
   (\<not> truthy client_id \<or> \<not> truthy client_secret \<longrightarrow>
      search_airports (amadeus_init new_client client_id client_secret) keyword =
        Return (Error_dict (Some (py ''Amadeus client credentials are missing''))) \<and>
      search_flights (amadeus_init new_client client_id client_secret)
        orig dest departure_date return_date n_adults =
        Return (Error_dict (Some (py ''Amadeus client credentials are missing''))) \<and>
      get_airport_info (amadeus_init new_client client_id client_secret) airport_code =
        Return (Error_dict (Some (py ''Amadeus client credentials are missing''))))"
proof (intro conjI impI allI)
  assume "client self = Some c \<and> locations_by_id c = None"
  then show "get_airport_info self airport_code =
      Raise (AttributeError
        ([39] @ py ''Locations'' @ [39] @ py '' object has no attribute '' @
         [39] @ py ''by_id'' @ [39]))"
    by (simp add: get_airport_info_def)
next
  fix d assume "client self = Some c" "locations_get c keyword = Api_data d"
  then show "search_airports self keyword = Return (Data d)"
    by (simp add: search_airports_def try_api_def)
next
  fix e assume "client self = Some c" "locations_get c keyword = Api_ResponseError e"
  then show "search_airports self keyword = Return (Error_dict (Some e))"
    by (simp add: search_airports_def try_api_def)
next
  fix d
  assume "client self = Some c"
    "flight_offers_search_get c
       \<lparr>originLocationCode = orig, destinationLocationCode = dest,
        departureDate = departure_date,
        returnDate = (if truthy return_date then return_date else None),
        adults = n_adults\<rparr> = Api_data d"
  then show "search_flights self orig dest departure_date return_date n_adults =
      Return (Data d)"
    by (simp add: search_flights_def try_api_def split: if_splits)
next
  fix e
  assume "client self = Some c"
    "flight_offers_search_get c
       \<lparr>originLocationCode = orig, destinationLocationCode = dest,
        departureDate = departure_date,
        returnDate = (if truthy return_date then return_date else None),
        adults = n_adults\<rparr> = Api_ResponseError e"
  then show "search_flights self orig dest departure_date return_date n_adults =
      Return (Error_dict (Some e))"
    by (simp add: search_flights_def try_api_def split: if_splits)
next
  assume "\<not> truthy client_id \<or> \<not> truthy client_secret"
  then show "search_airports (amadeus_init new_client client_id client_secret) keyword =
      Return (Error_dict (Some (py ''Amadeus client credentials are missing'')))"
    by (auto simp: amadeus_init_def search_airports_def truthy_def split: option.splits)
next
  assume "\<not> truthy client_id \<or> \<not> truthy client_secret"
  then show "search_flights (amadeus_init new_client client_id client_secret)
        orig dest departure_date return_date n_adults =
      Return (Error_dict (Some (py ''Amadeus client credentials are missing'')))"
    by (auto simp: amadeus_init_def search_flights_def truthy_def split: option.splits)
next
  assume "\<not> truthy client_id \<or> \<not> truthy client_secret"
  then show "get_airport_info (amadeus_init new_client client_id client_secret) airport_code =
      Return (Error_dict (Some (py ''Amadeus client credentials are missing'')))"
    by (auto simp: amadeus_init_def get_airport_info_def truthy_def split: option.splits)
qed

text \<open>
  The SDK's client with the credentials \<open>id\<close> and \<open>secret\<close>: the airport \<open>DEL\<close> cannot
  be looked up, airports and flights are found or refused, and without the client id the
  lookup answers with the fixed payload.
\<close>

theorem get_airport_info_raises_AttributeError_witness:
  "get_airport_info
     (amadeus_init new_sdk_client (Some (py ''id'')) (Some (py ''secret''))) (py ''DEL'') =
     Raise (AttributeError
       ([39] @ py ''Locations'' @ [39] @ py '' object has no attribute '' @
        [39] @ py ''by_id'' @ [39])) \<and>
   search_airports
     (amadeus_init new_sdk_client (Some (py ''id'')) (Some (py ''secret''))) (py ''Delhi'') =
     Return (Data [py ''DEL'']) \<and>
   search_flights
     (amadeus_init new_sdk_client (Some (py ''id'')) (Some (py ''secret'')))
     (py ''XXX'') (py ''CDG'') (py ''2025-05-01'') (Some (py ''2025-05-09'')) 2 =
     Return (Error_dict (Some (py ''[400]''))) \<and>
   get_airport_info (amadeus_init new_sdk_client None (Some (py ''secret''))) (py ''DEL'') =
     Return (Error_dict (Some (py ''Amadeus client credentials are missing'')))"
proof -
  have c: "client (amadeus_init new_sdk_client (Some (py ''id'')) (Some (py ''secret''))) =
      Some sdk_client"
    by (simp add: amadeus_init_def new_sdk_client_def py_def)
  have n: "locations_by_id sdk_client = None"
    by (simp add: sdk_client_def)
  have a: "locations_get sdk_client (py ''Delhi'') = Api_data [py ''DEL'']"
    by (simp add: sdk_client_def)
  have f: "flight_offers_search_get sdk_client
       \<lparr>originLocationCode = py ''XXX'', destinationLocationCode = py ''CDG'',
        departureDate = py ''2025-05-01'',
        returnDate = (if truthy (Some (py ''2025-05-09'')) then Some (py ''2025-05-09'')
                      else None),
        adults = 2\<rparr> = Api_ResponseError (py ''[400]'')"
    by (simp add: sdk_client_def py_def)
  have k: "\<not> truthy None \<or> \<not> truthy (Some (py ''secret''))"
    by (simp add: truthy_def)
  note t1 = get_airport_info_raises_AttributeError
    [of "amadeus_init new_sdk_client (Some (py ''id'')) (Some (py ''secret''))" sdk_client
      "py ''DEL''" "py ''Delhi''" "py ''XXX''" "py ''CDG''" "py ''2025-05-01''"
      "Some (py ''2025-05-09'')" 2 None "Some (py ''secret'')" new_sdk_client]
  from t1 c n have g1: "get_airport_info
     (amadeus_init new_sdk_client (Some (py ''id'')) (Some (py ''secret''))) (py ''DEL'') =
     Raise (AttributeError
       ([39] @ py ''Locations'' @ [39] @ py '' object has no attribute '' @
        [39] @ py ''by_id'' @ [39]))"
    by blast
  from t1 c a have g2: "search_airports
     (amadeus_init new_sdk_client (Some (py ''id'')) (Some (py ''secret''))) (py ''Delhi'') =
     Return (Data [py ''DEL''])"
    by blast
  from t1 c f have g3: "search_flights
     (amadeus_init new_sdk_client (Some (py ''id'')) (Some (py ''secret'')))
     (py ''XXX'') (py ''CDG'') (py ''2025-05-01'') (Some (py ''2025-05-09'')) 2 =
     Return (Error_dict (Some (py ''[400]'')))"
    by blast
  from t1 k have g4: "get_airport_info
     (amadeus_init new_sdk_client None (Some (py ''secret''))) (py ''DEL'') =
     Return (Error_dict (Some (py ''Amadeus client credentials are missing'')))"
    by blast
  from g1 g2 g3 g4 show ?thesis
    by (intro conjI)
qed

subsection \<open>The conversation history\<close>

text \<open>
  C8 does not hold of main.py. A click whose agent call raises has appended the user
  turn already and appends no assistant turn: the history is a single user entry, which
  the display drops. After the next, successful click the history is user, user,
  assistant; the display pairs the two user prompts, shows the second prompt as the
  answer to the first, and drops the assistant's answer as the unpaired trailing entry.
\<close>

theorem agent_failure_leaves_unpaired_user_turn:
  "map role (messages (run_session strftime [(failing_agent, paris_form)] initial_session)) =
     [py ''user''] \<and>
   display_history
     (messages (run_session strftime [(failing_agent, paris_form)] initial_session)) = [] \<and>
   map role (messages (run_session strftime
     [(failing_agent, paris_form), (answering_agent, rome_form)] initial_session)) =
     [py ''user'', py ''user'', py ''assistant''] \<and>
   display_history (messages (run_session strftime
     [(failing_agent, paris_form), (answering_agent, rome_form)] initial_session)) =
     [(construct_query_main strftime paris_form, construct_query_main strftime rome_form,
       False)]"
proof -
  have d: "destination paris_form \<noteq> []" "destination rome_form \<noteq> []"
    by (simp_all add: paris_form_def rome_form_def py_def)
  have u3: "[0..<3] = [0, 1, 2]"
    by (simp add: upt_rec)
  from d show ?thesis
    by (simp add: on_generate_plan_def Let_def initial_session_def failing_agent_def
        answering_agent_def display_history_def u3)
qed

end
